theory Spec2Isabelle
  imports Complex_Main
begin

section \<open>Data model\<close>

text \<open>
  Exceptions of the Python source, as values. A function that can raise returns
  \<open>error + 'a\<close>, with \<open>Inl\<close> for the exception.
\<close>

datatype error =
    AssertionError
  | IndexError
  | ValueError string
  | NotImplementedError
  | TypeError
  | RuntimeError
  | Exception string

text \<open>
  A numpy array or torch tensor: its \<open>shape\<close> and its elements in row-major order.
  Label maps are integer arrays (torch LongTensor or numpy int64): the values are modelled
  as unbounded integers, channel indices and label values being far from the 64-bit range.
\<close>

record 'a ndarray =
  shape :: "nat list"
  data :: "'a list"

definition wf_ndarray :: "'a ndarray \<Rightarrow> bool" where
  "wf_ndarray a = (length (data a) = prod_list (shape a))"

section \<open>Label combiner (instanceseg/utils/instance\_utils.py)\<close>

text \<open>\<open>np.unique\<close>: the distinct values, in ascending order.\<close>

definition np_unique :: "int list \<Rightarrow> int list" where
  "np_unique xs = sort (remdups xs)"

text \<open>\<open>[i for i, s in enumerate(semantic_instance_class_list) if s == sem_val]\<close>\<close>

definition sem_inst_idxs_of :: "int list \<Rightarrow> int \<Rightarrow> nat list" where
  "sem_inst_idxs_of semantic_instance_class_list sem_val =
     filter (\<lambda>i. semantic_instance_class_list ! i = sem_val)
       [0..<length semantic_instance_class_list]"

text \<open>\<open>(sem_lbl == sem_val) * (inst_lbl == inst_val)\<close>: the elementwise conjunction.\<close>

definition pixel_mask :: "int list \<Rightarrow> int list \<Rightarrow> int \<Rightarrow> int \<Rightarrow> bool list" where
  "pixel_mask sem inst sem_val inst_val =
     map (\<lambda>(s, n). s = sem_val \<and> n = inst_val) (zip sem inst)"

text \<open>\<open>y[mask] = v\<close>\<close>

definition masked_assign :: "bool list \<Rightarrow> 'a \<Rightarrow> 'a list \<Rightarrow> 'a list" where
  "masked_assign msk v ys = map (\<lambda>(m, y). if m then v else y) (zip msk ys)"

text \<open>
  The inner loop \<open>for sem_inst_idx in sem_inst_idxs\<close>. Reading
  \<open>instance_count_id_list[sem_inst_idx]\<close> beyond the list raises IndexError, which the
  \<open>except\<close> clause re-raises.
\<close>

fun assign_sem_inst_idxs ::
  "int list \<Rightarrow> int list \<Rightarrow> int list \<Rightarrow> int \<Rightarrow> nat list \<Rightarrow> int list \<Rightarrow> error + int list" where
  "assign_sem_inst_idxs sem inst instance_count_id_list sem_val [] y = Inr y"
| "assign_sem_inst_idxs sem inst instance_count_id_list sem_val (sem_inst_idx # rest) y =
     (if sem_inst_idx < length instance_count_id_list then
        (let inst_val = instance_count_id_list ! sem_inst_idx in
         assign_sem_inst_idxs sem inst instance_count_id_list sem_val rest
           (masked_assign (pixel_mask sem inst sem_val inst_val) (int sem_inst_idx) y))
      else Inl IndexError)"

text \<open>The outer loop \<open>for sem_val, _ in zip(unique_semantic_vals, inst_counts)\<close>.\<close>

fun assign_sem_vals ::
  "int list \<Rightarrow> int list \<Rightarrow> int list \<Rightarrow> int list \<Rightarrow> int list \<Rightarrow> int list \<Rightarrow> error + int list" where
  "assign_sem_vals sem inst semantic_instance_class_list instance_count_id_list [] y = Inr y"
| "assign_sem_vals sem inst semantic_instance_class_list instance_count_id_list (sem_val # rest) y =
     (case assign_sem_inst_idxs sem inst instance_count_id_list sem_val
             (sem_inst_idxs_of semantic_instance_class_list sem_val) y of
        Inl e \<Rightarrow> Inl e
      | Inr y' \<Rightarrow>
          assign_sem_vals sem inst semantic_instance_class_list instance_count_id_list rest y')"

definition combine_semantic_and_instance_labels ::
  "int ndarray \<Rightarrow> int ndarray \<Rightarrow> int list \<Rightarrow> int list \<Rightarrow> bool \<Rightarrow> int \<Rightarrow> error + int ndarray" where
  "combine_semantic_and_instance_labels sem_lbl inst_lbl semantic_instance_class_list
       instance_count_id_list set_extras_to_void void_value =
     (if \<not> set_extras_to_void then Inl AssertionError
      else if shape sem_lbl \<noteq> shape inst_lbl then Inl AssertionError
      else
        (case assign_sem_vals (data sem_lbl) (data inst_lbl) semantic_instance_class_list
                instance_count_id_list (np_unique semantic_instance_class_list)
                (replicate (length (data inst_lbl)) void_value) of
           Inl e \<Rightarrow> Inl e
         | Inr y \<Rightarrow> Inr (inst_lbl\<lparr>data := y\<rparr>)))"

text \<open>A channel \<open>i\<close> owns the pair \<open>(s, n)\<close>.\<close>

definition owns :: "int list \<Rightarrow> int list \<Rightarrow> nat \<Rightarrow> int \<Rightarrow> int \<Rightarrow> bool" where
  "owns semantic_instance_class_list instance_count_id_list i s n =
     (i < length semantic_instance_class_list \<and> i < length instance_count_id_list \<and>
      semantic_instance_class_list ! i = s \<and> instance_count_id_list ! i = n)"


section \<open>Channel layout (instanceseg/utils/instance\_utils.py)\<close>

text \<open>
  \<open>[sem_cls for sem_cls, n_channels in enumerate(n_channels_by_semantic_id)
      for _ in range(n_channels)]\<close>; \<open>range\<close> of a negative count is empty, as \<open>nat\<close> of
  a negative integer is 0.
\<close>

definition get_semantic_instance_class_list :: "int list \<Rightarrow> int list" where
  "get_semantic_instance_class_list n_channels_by_semantic_id =
     concat (map (\<lambda>(sem_cls, n_channels). replicate (nat n_channels) (int sem_cls))
                 (enumerate 0 n_channels_by_semantic_id))"

text \<open>\<open>sum(sem_cls_locs)\<close>: the number of true entries of a boolean array.\<close>

definition count_true :: "bool list \<Rightarrow> nat" where
  "count_true locs = length (filter (\<lambda>b. b) locs)"

text \<open>
  \<open>arr[locs] = np.arange(locs.sum()) + k\<close>: the true positions receive \<open>k, k + 1, \<dots>\<close>
  in order.
\<close>

fun put_arange :: "bool list \<Rightarrow> int \<Rightarrow> int list \<Rightarrow> int list" where
  "put_arange (l # ls) k (a # as) =
     (if l then k # put_arange ls (k + 1) as else a # put_arange ls k as)"
| "put_arange ls k as = as"

text \<open>The loop \<open>for sem_cls in unique_semantic_classes\<close>.\<close>

fun fill_instance_count_ids ::
  "int list \<Rightarrow> int list \<Rightarrow> bool \<Rightarrow> int list \<Rightarrow> int list \<Rightarrow> error + int list" where
  "fill_instance_count_ids semantic_instance_class_list non_instance_sem_classes include_channel0
       [] instance_count_id_arr = Inr instance_count_id_arr"
| "fill_instance_count_ids semantic_instance_class_list non_instance_sem_classes include_channel0
       (sem_cls # rest) instance_count_id_arr =
     (let sem_cls_locs = map (\<lambda>s. s = sem_cls) semantic_instance_class_list in
      if sem_cls \<in> set non_instance_sem_classes then
        (if count_true sem_cls_locs \<noteq> 1 then Inl AssertionError
         else fill_instance_count_ids semantic_instance_class_list non_instance_sem_classes
                include_channel0 rest (masked_assign sem_cls_locs 0 instance_count_id_arr))
      else fill_instance_count_ids semantic_instance_class_list non_instance_sem_classes
             include_channel0 rest
             (put_arange sem_cls_locs (if include_channel0 then 0 else 1) instance_count_id_arr))"

text \<open>
  \<open>np.empty\<close> returns an array of arbitrary contents; the loop overwrites every position
  (lemma \<open>np_empty_contents_irrelevant\<close> below), so the choice made here is immaterial.
\<close>

definition np_empty :: "nat \<Rightarrow> int list" where
  "np_empty n = replicate n 0"

definition get_instance_count_id_list :: "int list \<Rightarrow> int list \<Rightarrow> bool \<Rightarrow> error + int list" where
  "get_instance_count_id_list semantic_instance_class_list non_instance_sem_classes include_channel0 =
     fill_instance_count_ids semantic_instance_class_list non_instance_sem_classes include_channel0
       (np_unique semantic_instance_class_list) (np_empty (length semantic_instance_class_list))"

text \<open>The slot a channel receives: its rank among the channels of its class, plus the offset.\<close>

definition slot_of :: "int list \<Rightarrow> int list \<Rightarrow> bool \<Rightarrow> nat \<Rightarrow> int" where
  "slot_of sicl non_inst include_channel0 i =
     (if sicl ! i \<in> set non_inst then 0
      else (if include_channel0 then 0 else 1) +
           int (count_true (take i (map (\<lambda>s. s = sicl ! i) sicl))))"

text \<open>Python indexing into a dimension of size \<open>n\<close>: negative indices count from the end.\<close>

definition python_index :: "nat \<Rightarrow> int \<Rightarrow> nat option" where
  "python_index n i =
     (if 0 \<le> i \<and> i < int n then Some (nat i)
      else if - int n \<le> i \<and> i < 0 then Some (nat (i + int n))
      else None)"

text \<open>\<open>max\<close> of a Python list; the empty list raises ValueError.\<close>

definition py_max :: "int list \<Rightarrow> error + int" where
  "py_max xs = (case xs of [] \<Rightarrow> Inl (ValueError ''max() arg is an empty sequence'')
                | x # rest \<Rightarrow> Inr (fold max rest x))"

text \<open>
  The loop \<open>for instance_idx, semantic_idx in enumerate(semantic_instance_class_list)\<close>
  setting one entry of the matrix to 1 (the matrix as a list of rows).
\<close>

fun set_mapping_entries ::
  "bool \<Rightarrow> nat \<Rightarrow> (nat \<times> int) list \<Rightarrow> real list list \<Rightarrow> error + real list list" where
  "set_mapping_entries compose_transposed n_semantic_classes [] m = Inr m"
| "set_mapping_entries compose_transposed n_semantic_classes ((instance_idx, semantic_idx) # rest) m =
     (case python_index n_semantic_classes semantic_idx of
        None \<Rightarrow> Inl IndexError
      | Some j \<Rightarrow>
          set_mapping_entries compose_transposed n_semantic_classes rest
            (if compose_transposed then m[j := (m ! j)[instance_idx := 1]]
             else m[instance_idx := (m ! instance_idx)[j := 1]]))"

text \<open>
  \<open>torch.zeros\<close> of a negative size raises. The flag \<open>as_numpy\<close> changes the container of
  the result, not its entries.
\<close>

definition get_instance_to_semantic_mapping_from_sem_inst_class_list ::
  "int list \<Rightarrow> bool \<Rightarrow> bool \<Rightarrow> error + real list list" where
  "get_instance_to_semantic_mapping_from_sem_inst_class_list semantic_instance_class_list
       as_numpy compose_transposed =
     (let n_instance_classes = length semantic_instance_class_list in
      case py_max semantic_instance_class_list of
        Inl e \<Rightarrow> Inl e
      | Inr mx \<Rightarrow>
          (if mx + 1 < 0 then Inl RuntimeError
           else
             let n_semantic_classes = nat (mx + 1) in
             set_mapping_entries compose_transposed n_semantic_classes
               (enumerate 0 semantic_instance_class_list)
               (if compose_transposed
                then replicate n_semantic_classes (replicate n_instance_classes 0)
                else replicate n_instance_classes (replicate n_semantic_classes 0))))"

definition get_instance_to_semantic_mapping :: "int list \<Rightarrow> bool \<Rightarrow> error + real list list" where
  "get_instance_to_semantic_mapping n_instances_by_semantic_id as_numpy =
     get_instance_to_semantic_mapping_from_sem_inst_class_list
       (get_semantic_instance_class_list n_instances_by_semantic_id) as_numpy True"

section \<open>Applying a permutation (instanceseg/utils/instance\_utils.py)\<close>

text \<open>
  A tensor seen along its first two axes: \<open>rows a ! b ! c\<close> is the sub-tensor at \<open>[b, c]\<close>,
  \<open>size1\<close> the extent of the second axis (which the rows cannot tell when there are
  none); every row has \<open>size1\<close> entries. For a score tensor of shape
  (batch, channels, H, W) the entries are the H x W planes, for a permutation array of
  shape (batch, channels) they are integers.
\<close>

record 'a array2 =
  size1 :: nat
  rows :: "'a list list"

text \<open>\<open>pred_permutations[:, ch]\<close>\<close>

definition column :: "'a array2 \<Rightarrow> nat \<Rightarrow> error + 'a list" where
  "column a ch = (if ch < size1 a then Inr (map (\<lambda>r. r ! ch) (rows a)) else Inl IndexError)"

text \<open>
  \<open>score[:, idx, :, :]\<close> for an index vector \<open>idx\<close>: a tensor of shape
  (batch, len(idx), H, W), whose entry \<open>[b, j]\<close> is the plane \<open>score[b, idx[j]]\<close>.
\<close>

definition select_channels :: "'p array2 \<Rightarrow> int list \<Rightarrow> error + 'p list list" where
  "select_channels score idx =
     (if list_all (\<lambda>i. python_index (size1 score) i \<noteq> None) idx
      then Inr (map (\<lambda>img. map (\<lambda>i. img ! the (python_index (size1 score) i)) idx) (rows score))
      else Inl IndexError)"

text \<open>
  \<open>score_permuted_to_match[:, ch, :, :] = v\<close>, where the target has shape (batch, H, W)
  and \<open>v\<close> has shape (batch, len(idx), H, W). By the broadcasting rule of numpy and of
  torch the assignment drops leading axes of extent 1 from \<open>v\<close> and then broadcasts: a
  value of four axes fits the three axes of the target only when its first two extents
  are both 1, that is, for one image and one row of permutations. In every other case
  the shapes do not fit and the assignment raises.
\<close>

definition assign_channel :: "'p array2 \<Rightarrow> nat \<Rightarrow> 'p list list \<Rightarrow> error + 'p array2" where
  "assign_channel dst ch v =
     (case v of
        [[p]] \<Rightarrow> Inr (dst\<lparr>rows := map (\<lambda>img. img[ch := p]) (rows dst)\<rparr>)
      | _ \<Rightarrow> Inl RuntimeError)"

text \<open>The loop \<open>for ch in range(score.size(1))\<close>.\<close>

fun permute_channels ::
  "'p array2 \<Rightarrow> int array2 \<Rightarrow> nat list \<Rightarrow> 'p array2 \<Rightarrow> error + 'p array2" where
  "permute_channels score pred_permutations [] score_permuted_to_match =
     Inr score_permuted_to_match"
| "permute_channels score pred_permutations (ch # rest) score_permuted_to_match =
     (case column pred_permutations ch of
        Inl e \<Rightarrow> Inl e
      | Inr idx \<Rightarrow>
          (case select_channels score idx of
             Inl e \<Rightarrow> Inl e
           | Inr v \<Rightarrow>
               (case assign_channel score_permuted_to_match ch v of
                  Inl e \<Rightarrow> Inl e
                | Inr s \<Rightarrow> permute_channels score pred_permutations rest s)))"

definition permute_scores :: "'p array2 \<Rightarrow> int array2 \<Rightarrow> error + 'p array2" where
  "permute_scores score pred_permutations =
     permute_channels score pred_permutations [0..<size1 score] score"

text \<open>
  The inner loop \<open>for new_channel, old_channel in enumerate(permutation)\<close>: the mask is
  taken on the original \<open>label_preds\<close>, the assignment made in the copy.
\<close>

fun relabel_channels :: "int list \<Rightarrow> (nat \<times> int) list \<Rightarrow> int list \<Rightarrow> int list" where
  "relabel_channels label_preds [] label_preds_permuted = label_preds_permuted"
| "relabel_channels label_preds ((new_channel, old_channel) # rest) label_preds_permuted =
     relabel_channels label_preds rest
       (masked_assign (map (\<lambda>v. v = old_channel) label_preds) (int new_channel)
          label_preds_permuted)"

text \<open>
  The outer loop \<open>for idx in range(permutations.shape[0])\<close>: every row is applied to the
  whole of \<open>label_preds\<close>.
\<close>

definition permute_labels :: "int ndarray \<Rightarrow> int array2 \<Rightarrow> int ndarray" where
  "permute_labels label_preds permutations =
     label_preds\<lparr>data :=
       fold (\<lambda>permutation out. relabel_channels (data label_preds) (enumerate 0 permutation) out)
            (rows permutations) (data label_preds)\<rparr>"

text \<open>
  Channel \<open>a\<close> is the only channel with the largest score at pixel \<open>x\<close> of an image given
  as the list of its channel planes (each plane the list of its pixels).
\<close>

definition unique_argmax :: "('a::linorder) list list \<Rightarrow> nat \<Rightarrow> nat \<Rightarrow> bool" where
  "unique_argmax img x a =
     (a < length img \<and> list_all (\<lambda>c. c = a \<or> img ! c ! x < img ! a ! x) [0..<length img])"

text \<open>A row that lists each of \<open>0, \<dots>, n - 1\<close> once.\<close>

definition is_bijection_row :: "nat \<Rightarrow> int list \<Rightarrow> bool" where
  "is_bijection_row n r = (sort r = map int [0..<n])"

section \<open>InstanceProblemConfig (instanceseg/utils/instance\_utils.py)\<close>

text \<open>
  \<open>nn.Conv2d(in_channels, out_channels, kernel_size=1, bias=False)\<close>: the layer's
  dimensions; its randomly initialised weights are not modelled, and its construction
  is taken to succeed.
\<close>

record conv2d =
  in_channels :: nat
  out_channels :: nat
  kernel_size :: nat
  bias :: bool

record InstanceProblemConfig =
  map_to_semantic :: bool
  semantic_class_names :: "string list option"
  semantic_vals :: "int list"
  void_value :: int
  include_instance_channel0 :: bool
  n_instances_by_semantic_id :: "int list"
  model_n_instances_by_semantic_id :: "int list"
  model_semantic_instance_class_list :: "int list"
  semantic_instance_class_list :: "int list"
  n_semantic_classes :: nat
  n_classes :: nat
  sem_ids_by_instance_id :: "int list"
  instance_count_id_list :: "int list"
  model_instance_count_id_list :: "int list"
  instance_to_semantic_mapping_matrix :: "real list list"
  instance_to_semantic_conv1x1 :: conv2d

text \<open>
  \<open>InstanceProblemConfig.__init__\<close>. The arguments carry the suffix \<open>_in\<close> where a
  field has their name. \<open>None\<close> for \<open>n_instances_by_semantic_id\<close> fails in \<open>len\<close> when
  \<open>semantic_vals\<close> is given, in the second assertion otherwise. An empty \<open>semantic_vals\<close>
  is falsy and replaced by the range, like \<open>None\<close>. The statements are evaluated in the
  order of the source, so that the first exception raised is the one returned.
\<close>

definition InstanceProblemConfig_init ::
  "int list option \<Rightarrow> string list option \<Rightarrow> int list option \<Rightarrow> int \<Rightarrow> bool \<Rightarrow> bool
     \<Rightarrow> error + InstanceProblemConfig" where
  "InstanceProblemConfig_init n_instances_by_semantic_id_in semantic_class_names_in
       semantic_vals_in void_value_in include_instance_channel0_in map_to_semantic_in =
     (case n_instances_by_semantic_id_in of
        None \<Rightarrow> (if semantic_vals_in \<noteq> None then Inl TypeError else Inl AssertionError)
      | Some n \<Rightarrow>
          (if (case semantic_vals_in of None \<Rightarrow> False | Some v \<Rightarrow> length v \<noteq> length n)
           then Inl AssertionError
           else
             let vals = (case semantic_vals_in of
                           None \<Rightarrow> map int [0..<length n]
                         | Some v \<Rightarrow> if v = [] then map int [0..<length n] else v);
                 n_self = (if \<not> map_to_semantic_in then n else map (\<lambda>_. 1) n);
                 model_n = (if \<not> map_to_semantic_in then n else map (\<lambda>_. 1) n);
                 model_sicl = get_semantic_instance_class_list n;
                 sicl = get_semantic_instance_class_list n_self;
                 n_sem = length vals;
                 n_cls = (if \<not> map_to_semantic_in then length model_sicl else n_sem);
                 sem_ids = concat (map (\<lambda>(id_into_sem_vals, n_inst).
                                          replicate (nat n_inst) (int id_into_sem_vals))
                                       (enumerate 0 n_self))
             in
             (case get_instance_count_id_list sicl [0] include_instance_channel0_in of
                Inl e \<Rightarrow> Inl e
              | Inr icil \<Rightarrow>
                  (case get_instance_count_id_list model_sicl [0] include_instance_channel0_in of
                     Inl e \<Rightarrow> Inl e
                   | Inr model_icil \<Rightarrow>
                       (case get_instance_to_semantic_mapping model_n False of
                          Inl e \<Rightarrow> Inl e
                        | Inr matrix \<Rightarrow>
                            Inr \<lparr> map_to_semantic = map_to_semantic_in,
                                  semantic_class_names = semantic_class_names_in,
                                  semantic_vals = vals,
                                  void_value = void_value_in,
                                  include_instance_channel0 = include_instance_channel0_in,
                                  n_instances_by_semantic_id = n_self,
                                  model_n_instances_by_semantic_id = model_n,
                                  model_semantic_instance_class_list = model_sicl,
                                  semantic_instance_class_list = sicl,
                                  n_semantic_classes = n_sem,
                                  n_classes = n_cls,
                                  sem_ids_by_instance_id = sem_ids,
                                  instance_count_id_list = icil,
                                  model_instance_count_id_list = model_icil,
                                  instance_to_semantic_mapping_matrix = matrix,
                                  instance_to_semantic_conv1x1 =
                                    \<lparr> in_channels = length model_sicl, out_channels = n_sem,
                                      kernel_size = 1, bias = False \<rparr> \<rparr>)))))"

text \<open>
  \<open>set_class_names\<close> assigns to \<open>self.semantic_class_names\<close>: the method returns the
  object after the assignment.
\<close>

definition set_class_names ::
  "InstanceProblemConfig \<Rightarrow> string list option \<Rightarrow> error + InstanceProblemConfig" where
  "set_class_names self class_names =
     (if class_names = None \<or> length (the class_names) = n_semantic_classes self
      then Inr (self\<lparr>semantic_class_names := class_names\<rparr>)
      else Inl AssertionError)"

definition decouple_instance_result :: "InstanceProblemConfig \<Rightarrow> 'a \<Rightarrow> error + 'b" where
  "decouple_instance_result self instance_scores = Inl NotImplementedError"

text \<open>A value passed to \<open>str.format\<close>: an integer or a string.\<close>

datatype pyval = PyInt int | PyStr string

text \<open>
  A list comprehension whose element expression can raise: the elements are evaluated
  from left to right, and the first exception ends the comprehension.
\<close>

fun comprehension :: "(error + 'a) list \<Rightarrow> error + 'a list" where
  "comprehension [] = Inr []"
| "comprehension (x # xs) =
     (case x of
        Inl e \<Rightarrow> Inl e
      | Inr v \<Rightarrow> (case comprehension xs of Inl e \<Rightarrow> Inl e | Inr vs \<Rightarrow> Inr (v # vs)))"

text \<open>
  The static method \<open>_get_channel_labels\<close>. \<open>str_format\<close> stands for \<open>str.format\<close> of
  Python: the format string and the arguments give a string, or an exception for a
  format string that does not fit. \<open>sicl\<close> and \<open>icil\<close> are the arguments
  \<open>semantic_instance_class_list\<close> and \<open>instance_count_id_list\<close>; \<open>zip\<close> stops at the
  shorter list.
\<close>

definition get_channel_labels_static ::
  "(string \<Rightarrow> pyval list \<Rightarrow> error + string) \<Rightarrow> int list \<Rightarrow> int list \<Rightarrow> string list option
     \<Rightarrow> bool \<Rightarrow> string \<Rightarrow> error + string list" where
  "get_channel_labels_static str_format sicl icil class_names map_to_sem sem_inst_format =
     (case (case class_names of
              None \<Rightarrow> Inr (map PyInt sicl)
            | Some names \<Rightarrow>
                comprehension
                  (map (\<lambda>c. case python_index (length names) c of
                              None \<Rightarrow> Inl IndexError
                            | Some j \<Rightarrow> Inr (PyStr (names ! j))) sicl)) of
        Inl e \<Rightarrow> Inl e
      | Inr semantic_instance_labels \<Rightarrow>
          (if map_to_sem
           then comprehension
                  (map (\<lambda>(sem_cls, inst_id). str_format sem_inst_format [sem_cls, PyStr []])
                       (zip semantic_instance_labels icil))
           else comprehension
                  (map (\<lambda>(sem_cls, inst_id). str_format sem_inst_format [sem_cls, PyInt inst_id])
                       (zip semantic_instance_labels icil))))"

definition get_channel_labels ::
  "(string \<Rightarrow> pyval list \<Rightarrow> error + string) \<Rightarrow> InstanceProblemConfig \<Rightarrow> string
     \<Rightarrow> error + string list" where
  "get_channel_labels str_format self sem_inst_format =
     get_channel_labels_static str_format (semantic_instance_class_list self)
       (instance_count_id_list self) (semantic_class_names self) (map_to_semantic self)
       sem_inst_format"

definition get_model_channel_labels ::
  "(string \<Rightarrow> pyval list \<Rightarrow> error + string) \<Rightarrow> InstanceProblemConfig \<Rightarrow> string
     \<Rightarrow> error + string list" where
  "get_model_channel_labels str_format self sem_inst_format =
     get_channel_labels_static str_format (model_semantic_instance_class_list self)
       (model_instance_count_id_list self) (semantic_class_names self) False sem_inst_format"

text \<open>
  The methods of the class as operations on the object: a call of a method with its
  arguments, what it returns, and the object after the call. Only \<open>set_class_names\<close>
  contains an assignment to \<open>self\<close>; a call that raises leaves the object as it was.
\<close>

datatype method_call =
    Set_class_names "string list option"
  | Get_channel_labels string
  | Get_model_channel_labels string
  | Decouple_instance_result

datatype returned = Returned_None | Returned_labels "string list"

fun call_method ::
  "(string \<Rightarrow> pyval list \<Rightarrow> error + string) \<Rightarrow> InstanceProblemConfig \<Rightarrow> method_call
     \<Rightarrow> InstanceProblemConfig \<times> (error + returned)" where
  "call_method str_format self (Set_class_names class_names) =
     (case set_class_names self class_names of
        Inl e \<Rightarrow> (self, Inl e)
      | Inr self' \<Rightarrow> (self', Inr Returned_None))"
| "call_method str_format self (Get_channel_labels sem_inst_format) =
     (self, map_sum id Returned_labels (get_channel_labels str_format self sem_inst_format))"
| "call_method str_format self (Get_model_channel_labels sem_inst_format) =
     (self, map_sum id Returned_labels (get_model_channel_labels str_format self sem_inst_format))"
| "call_method str_format self Decouple_instance_result =
     (self, decouple_instance_result self ())"

text \<open>The object after a sequence of calls, whether they raised or not.\<close>

definition after_calls ::
  "(string \<Rightarrow> pyval list \<Rightarrow> error + string) \<Rightarrow> InstanceProblemConfig \<Rightarrow> method_call list
     \<Rightarrow> InstanceProblemConfig" where
  "after_calls str_format self calls = fold (\<lambda>c s. fst (call_method str_format s c)) calls self"

fun is_set_class_names :: "method_call \<Rightarrow> bool" where
  "is_set_class_names (Set_class_names class_names) = True"
| "is_set_class_names c = False"

section \<open>Loss computation and validity check (instanceseg/train/trainer.py)\<close>

text \<open>
  A floating-point value: a finite number (taken as a real, rounding left aside), an
  infinity or NaN.
\<close>

datatype fval = Finite real | PosInf | NegInf | NaN

text \<open>\<open>v > t\<close> for a finite threshold \<open>t\<close>: false for NaN.\<close>

definition fval_gt :: "fval \<Rightarrow> real \<Rightarrow> bool" where
  "fval_gt v t = (case v of Finite r \<Rightarrow> r > t | PosInf \<Rightarrow> True | NegInf \<Rightarrow> False | NaN \<Rightarrow> False)"

text \<open>\<open>total_loss / score.size(0)\<close>: division of a float by a size.\<close>

definition fval_div :: "fval \<Rightarrow> nat \<Rightarrow> fval" where
  "fval_div v n =
     (case v of
        Finite r \<Rightarrow>
          (if n = 0 then (if r > 0 then PosInf else if r < 0 then NegInf else NaN)
           else Finite (r / real n))
      | PosInf \<Rightarrow> PosInf
      | NegInf \<Rightarrow> NegInf
      | NaN \<Rightarrow> NaN)"

text \<open>
  Modelled from the spec: \<open>is_nan\<close> and \<open>any_nan\<close> are imported from
  instanceseg/models/model\_utils.py, which is not among the sources. The spec (4.5, 7)
  says that the engine detects non-finite values in the loss and in the scores.
\<close>

definition is_nan :: "fval \<Rightarrow> bool" where
  "is_nan v = (case v of Finite r \<Rightarrow> False | PosInf \<Rightarrow> True | NegInf \<Rightarrow> True | NaN \<Rightarrow> True)"

definition any_nan :: "fval list \<Rightarrow> bool" where
  "any_nan vs = list_ex is_nan vs"

text \<open>The effects of a training step that the claims speak of, in the order they happen.\<close>

datatype event = ZeroGrad | Forward | LossFcnCalled | Warning | Backward | OptimStep

text \<open>\<open>t.size(k)\<close>: a dimension the tensor does not have raises.\<close>

definition size_of :: "'a ndarray \<Rightarrow> nat \<Rightarrow> error + nat" where
  "size_of t k = (if k < length (shape t) then Inr (shape t ! k) else Inl IndexError)"

text \<open>
  The parts of a \<open>Trainer\<close> that \<open>compute_loss\<close> and \<open>train_iteration\<close> use. The loss
  functions and the network are external: they are fields of function type.
\<close>

record ('i, 'p, 'c) Trainer =
  instance_problem :: InstanceProblemConfig
  loss_fcn :: "fval ndarray \<Rightarrow> int ndarray \<Rightarrow> int ndarray \<Rightarrow> error + ('p \<times> fval \<times> 'c)"
  eval_loss_fcn_with_matching ::
    "fval ndarray \<Rightarrow> int ndarray \<Rightarrow> int ndarray \<Rightarrow> error + ('p \<times> fval \<times> 'c)"
  model :: "'i \<Rightarrow> fval ndarray"
  model_training :: bool

text \<open>
  \<open>Trainer.compute_loss\<close>, returning the trace of effects and the outcome. The chained
  comparison \<open>a == b == c\<close> evaluates \<open>c\<close> only when \<open>a == b\<close>. With \<open>map_to_semantic\<close>
  the instance labels above 1 are set to 1 in place; the updated labels are returned
  with the result.
\<close>

definition compute_loss ::
  "('i, 'p, 'c) Trainer \<Rightarrow> fval ndarray \<Rightarrow> int ndarray \<Rightarrow> int ndarray \<Rightarrow> bool
     \<Rightarrow> event list \<times> (error + ('p \<times> fval \<times> 'c \<times> int ndarray))" where
  "compute_loss self score sem_lbl inst_lbl val_matching_override =
     (if shape sem_lbl \<noteq> shape inst_lbl
      then ([], Inl (Exception ''Sizes of score, targets are incorrect''))
      else
        (case size_of score 0 of Inl e \<Rightarrow> ([], Inl e) | Inr s0 \<Rightarrow>
        (case size_of score 2 of Inl e \<Rightarrow> ([], Inl e) | Inr s2 \<Rightarrow>
        (case size_of score 3 of Inl e \<Rightarrow> ([], Inl e) | Inr s3 \<Rightarrow>
          (if shape inst_lbl \<noteq> [s0, s2, s3]
           then ([], Inl (Exception ''Sizes of score, targets are incorrect''))
           else
             let inst_lbl' = (if map_to_semantic (instance_problem self)
                              then inst_lbl\<lparr>data := map (\<lambda>v. if v > 1 then 1 else v) (data inst_lbl)\<rparr>
                              else inst_lbl);
                 f = (if \<not> val_matching_override then loss_fcn self
                      else eval_loss_fcn_with_matching self)
             in
             (case f score sem_lbl inst_lbl' of
                Inl e \<Rightarrow> ([LossFcnCalled], Inl e)
              | Inr (permutations, total_loss, loss_components) \<Rightarrow>
                  ([LossFcnCalled],
                   Inr (permutations, fval_div total_loss s0, loss_components, inst_lbl'))))))))"

text \<open>
  \<open>debug_check_values_are_valid\<close>; \<open>loss\<close> is \<open>loss.data[0]\<close>, \<open>score\<close> is \<open>score.data\<close>,
  and the printed warning is the event \<open>Warning\<close>.
\<close>

definition debug_check_values_are_valid ::
  "fval \<Rightarrow> fval ndarray \<Rightarrow> nat \<Rightarrow> event list \<times> (error + unit)" where
  "debug_check_values_are_valid loss score iteration =
     (if is_nan loss then ([], Inl (ValueError ''losses is nan while training''))
      else
        let w = (if fval_gt loss 10000 then [Warning] else []) in
        if any_nan (data score) then (w, Inl (ValueError ''score is nan while training''))
        else (w, Inr ()))"

text \<open>
  \<open>Trainer.train_iteration\<close> from \<open>self.optim.zero_grad()\<close> to \<open>self.optim.step()\<close>, on
  the inputs that \<open>prepare_data_for_forward_pass\<close> returned; the logging that follows
  the optimiser step is left out.
\<close>

definition train_iteration ::
  "('i, 'p, 'c) Trainer \<Rightarrow> 'i \<Rightarrow> int ndarray \<Rightarrow> int ndarray \<Rightarrow> nat
     \<Rightarrow> event list \<times> (error + ('p \<times> fval \<times> 'c))" where
  "train_iteration self full_input sem_lbl inst_lbl iteration =
     (if \<not> model_training self then ([], Inl AssertionError)
      else
        let score = model self full_input in
        (case compute_loss self score sem_lbl inst_lbl False of
           (ev, Inl e) \<Rightarrow> ([ZeroGrad, Forward] @ ev, Inl e)
         | (ev, Inr (pred_permutations, loss, loss_components, inst_lbl')) \<Rightarrow>
             (case debug_check_values_are_valid loss score iteration of
                (ev', Inl e) \<Rightarrow> ([ZeroGrad, Forward] @ ev @ ev', Inl e)
              | (ev', Inr u) \<Rightarrow>
                  ([ZeroGrad, Forward] @ ev @ ev' @ [Backward, OptimStep],
                   Inr (pred_permutations, loss, loss_components)))))"

section \<open>Auxiliary notions for the proofs\<close>

text \<open>
  The invariant of the two loops of the label combiner: the output has the length of the
  instance map, and each pixel is void or holds a channel that owns the pixel's pair.
\<close>

definition labelled ::
  "int list \<Rightarrow> int list \<Rightarrow> int list \<Rightarrow> int list \<Rightarrow> int \<Rightarrow> int list \<Rightarrow> bool" where
  "labelled sem inst sicl icil void y =
     (length y = length inst \<and>
      (\<forall>p<length inst. y ! p = void \<or>
         (\<exists>i. owns sicl icil i (sem ! p) (inst ! p) \<and> y ! p = int i)))"

text \<open>
  A label pair of shape (1, 5) for a layout with one background channel and two channels
  of class 1: the fourth pixel is a third instance of class 1, the fifth is void in the
  semantic map.
\<close>

definition example_sem_lbl :: "int ndarray" where
  "example_sem_lbl = \<lparr>shape = [1, 5], data = [0, 1, 1, 1, - 1]\<rparr>"

definition example_inst_lbl :: "int ndarray" where
  "example_inst_lbl = \<lparr>shape = [1, 5], data = [0, 1, 2, 3, 1]\<rparr>"

text \<open>The configuration that \<open>InstanceProblemConfig([1, 2])\<close> constructs.\<close>

definition example_config :: InstanceProblemConfig where
  "example_config =
     \<lparr> map_to_semantic = False,
       semantic_class_names = None,
       semantic_vals = [0, 1],
       void_value = - 1,
       include_instance_channel0 = False,
       n_instances_by_semantic_id = [1, 2],
       model_n_instances_by_semantic_id = [1, 2],
       model_semantic_instance_class_list = [0, 1, 1],
       semantic_instance_class_list = [0, 1, 1],
       n_semantic_classes = 2,
       n_classes = 3,
       sem_ids_by_instance_id = [0, 1, 1],
       instance_count_id_list = [0, 1, 2],
       model_instance_count_id_list = [0, 1, 2],
       instance_to_semantic_mapping_matrix = [[1, 0, 0], [0, 1, 1]],
       instance_to_semantic_conv1x1 =
         \<lparr> in_channels = 3, out_channels = 2, kernel_size = 1, bias = False \<rparr> \<rparr>"

text \<open>
  The test of \<open>compute_loss\<close>: the label maps have the shape made of the dimensions 0, 2
  and 3 of the score tensor, which must have them.
\<close>

definition sizes_match :: "'a ndarray \<Rightarrow> 'b ndarray \<Rightarrow> 'c ndarray \<Rightarrow> bool" where
  "sizes_match score sem_lbl inst_lbl =
     (4 \<le> length (shape score) \<and>
      shape sem_lbl = [shape score ! 0, shape score ! 2, shape score ! 3] \<and>
      shape inst_lbl = [shape score ! 0, shape score ! 2, shape score ! 3])"

definition is_finite :: "fval \<Rightarrow> bool" where
  "is_finite v = (case v of Finite r \<Rightarrow> True | PosInf \<Rightarrow> False | NegInf \<Rightarrow> False | NaN \<Rightarrow> False)"

text \<open>
  A trainer for one image of 1 x 2 pixels and three channels, whose loss function returns
  the given total loss and whose network returns the given scores.
\<close>

definition example_trainer :: "fval \<Rightarrow> fval list \<Rightarrow> (unit, unit, unit) Trainer" where
  "example_trainer total_loss scores =
     \<lparr> instance_problem = example_config,
       loss_fcn = (\<lambda>score sem_lbl inst_lbl. Inr ((), total_loss, ())),
       eval_loss_fcn_with_matching = (\<lambda>score sem_lbl inst_lbl. Inr ((), total_loss, ())),
       model = (\<lambda>full_input. \<lparr>shape = [1, 3, 1, 2], data = scores\<rparr>),
       model_training = True \<rparr>"

definition example_sem_lbl2 :: "int ndarray" where
  "example_sem_lbl2 = \<lparr>shape = [1, 1, 2], data = [0, 1]\<rparr>"

definition example_inst_lbl2 :: "int ndarray" where
  "example_inst_lbl2 = \<lparr>shape = [1, 1, 2], data = [0, 2]\<rparr>"

text \<open>The check of \<open>set_class_names\<close> on its argument.\<close>

definition class_names_fit :: "InstanceProblemConfig \<Rightarrow> string list option \<Rightarrow> bool" where
  "class_names_fit self class_names =
     (case class_names of None \<Rightarrow> True | Some names \<Rightarrow> length names = n_semantic_classes self)"

text \<open>
  A formatter for the examples: it stands for \<open>'{}_{}'.format\<close> on a class name and
  a slot below 10.
\<close>

definition example_format :: "string \<Rightarrow> pyval list \<Rightarrow> error + string" where
  "example_format f args =
     (case args of
        [PyStr s, PyInt i] \<Rightarrow> Inr (s @ ''_'' @ [char_of (48 + i)])
      | _ \<Rightarrow> Inl IndexError)"

section \<open>The label combiner: proofs\<close>

lemma length_masked_assign:
  "length (masked_assign msk v ys) = min (length msk) (length ys)"
  by (simp add: masked_assign_def)

lemma nth_masked_assign:
  "i < length msk \<Longrightarrow> i < length ys \<Longrightarrow>
   masked_assign msk v ys ! i = (if msk ! i then v else ys ! i)"
  by (simp add: masked_assign_def)

lemma length_pixel_mask:
  "length (pixel_mask sem inst s n) = min (length sem) (length inst)"
  by (simp add: pixel_mask_def)

lemma nth_pixel_mask:
  "i < length sem \<Longrightarrow> i < length inst \<Longrightarrow>
   pixel_mask sem inst s n ! i = (sem ! i = s \<and> inst ! i = n)"
  by (simp add: pixel_mask_def)

lemma labelled_masked_assign:
  assumes "labelled sem inst sicl icil void y" "length sem = length inst"
    and "i < length sicl" "i < length icil"
  shows "labelled sem inst sicl icil void
           (masked_assign (pixel_mask sem inst (sicl ! i) (icil ! i)) (int i) y)"
  using assms unfolding labelled_def
  by (auto simp: length_masked_assign length_pixel_mask nth_masked_assign nth_pixel_mask owns_def)

lemma assign_sem_inst_idxs_labelled:
  assumes "length sem = length inst" "\<forall>i\<in>set idxs. i < length sicl \<and> sicl ! i = sv"
    and "labelled sem inst sicl icil void y"
    and "assign_sem_inst_idxs sem inst icil sv idxs y = Inr y'"
  shows "labelled sem inst sicl icil void y'"
  using assms
proof (induction idxs arbitrary: y)
  case Nil
  then show ?case by simp
next
  case (Cons i idxs)
  from Cons.prems(4) have i: "i < length icil"
    by (simp split: if_splits)
  from Cons.prems(2) have i': "i < length sicl" "sicl ! i = sv" by auto
  have "labelled sem inst sicl icil void
          (masked_assign (pixel_mask sem inst (sicl ! i) (icil ! i)) (int i) y)"
    using labelled_masked_assign[OF Cons.prems(3) Cons.prems(1) i'(1) i] .
  moreover from Cons.prems(4) i
  have "assign_sem_inst_idxs sem inst icil sv idxs
          (masked_assign (pixel_mask sem inst sv (icil ! i)) (int i) y) = Inr y'"
    by simp
  ultimately show ?case using Cons.IH Cons.prems(1,2) i'(2) by auto
qed

lemma assign_sem_inst_idxs_returns:
  "\<forall>i\<in>set idxs. i < length icil \<Longrightarrow> \<exists>y'. assign_sem_inst_idxs sem inst icil sv idxs y = Inr y'"
  by (induction idxs arbitrary: y) auto

lemma sem_inst_idxs_of_set:
  "i \<in> set (sem_inst_idxs_of sicl sv) \<longleftrightarrow> i < length sicl \<and> sicl ! i = sv"
  by (auto simp: sem_inst_idxs_of_def)

lemma assign_sem_vals_labelled:
  assumes "length sem = length inst"
    and "labelled sem inst sicl icil void y"
    and "assign_sem_vals sem inst sicl icil svs y = Inr y'"
  shows "labelled sem inst sicl icil void y'"
  using assms
proof (induction svs arbitrary: y)
  case Nil
  then show ?case by simp
next
  case (Cons sv svs)
  from Cons.prems(3) obtain y1 where
    y1: "assign_sem_inst_idxs sem inst icil sv (sem_inst_idxs_of sicl sv) y = Inr y1"
    and rest: "assign_sem_vals sem inst sicl icil svs y1 = Inr y'"
    by (auto split: sum.splits)
  have "labelled sem inst sicl icil void y1"
    by (rule assign_sem_inst_idxs_labelled[OF Cons.prems(1) _ Cons.prems(2) y1])
       (simp add: sem_inst_idxs_of_set)
  then show ?case using Cons.IH[OF Cons.prems(1) _ rest] by simp
qed

lemma assign_sem_vals_returns:
  "length sicl \<le> length icil \<Longrightarrow> \<exists>y'. assign_sem_vals sem inst sicl icil svs y = Inr y'"
proof (induction svs arbitrary: y)
  case Nil
  then show ?case by simp
next
  case (Cons sv svs)
  have "\<forall>i\<in>set (sem_inst_idxs_of sicl sv). i < length icil"
    using Cons.prems by (auto simp: sem_inst_idxs_of_set)
  from assign_sem_inst_idxs_returns[OF this]
  obtain y1 where "assign_sem_inst_idxs sem inst icil sv (sem_inst_idxs_of sicl sv) y = Inr y1"
    by blast
  then show ?case using Cons.IH[OF Cons.prems] by simp
qed

lemma labelled_replicate: "labelled sem inst sicl icil void (replicate (length inst) void)"
  by (simp add: labelled_def)

lemma combine_labelled:
  assumes "shape sem_lbl = shape inst_lbl" "wf_ndarray sem_lbl" "wf_ndarray inst_lbl"
    and "length icil = length sicl"
  shows "\<exists>y. combine_semantic_and_instance_labels sem_lbl inst_lbl sicl icil True void = Inr y \<and>
             shape y = shape inst_lbl \<and>
             labelled (data sem_lbl) (data inst_lbl) sicl icil void (data y)"
proof -
  have len: "length (data sem_lbl) = length (data inst_lbl)"
    using assms(1-3) by (simp add: wf_ndarray_def)
  from assign_sem_vals_returns[of sicl icil] assms(4)
  obtain y where y: "assign_sem_vals (data sem_lbl) (data inst_lbl) sicl icil (np_unique sicl)
                       (replicate (length (data inst_lbl)) void) = Inr y"
    by (metis order_refl)
  have "labelled (data sem_lbl) (data inst_lbl) sicl icil void y"
    using assign_sem_vals_labelled[OF len labelled_replicate y] .
  then show ?thesis
    using assms(1) y by (simp add: combine_semantic_and_instance_labels_def)
qed



lemma example_shapes: "shape example_sem_lbl = shape example_inst_lbl"
  by (simp add: example_sem_lbl_def example_inst_lbl_def)

lemma example_wf: "wf_ndarray example_sem_lbl" "wf_ndarray example_inst_lbl"
  by (simp_all add: example_sem_lbl_def example_inst_lbl_def wf_ndarray_def)

text \<open>
  The example pair: the third instance of class 1 overflows the budget of two channels and
  becomes void, as does the pixel that is void in the semantic map.
\<close>

lemma combine_example:
  "combine_semantic_and_instance_labels example_sem_lbl example_inst_lbl
     [0, 1, 1] [0, 1, 2] True (- 1)
   = Inr \<lparr>shape = [1, 5], data = [0, 1, 2, - 1, - 1]\<rparr>"
  by (simp add: combine_semantic_and_instance_labels_def np_unique_def sem_inst_idxs_of_def
        masked_assign_def pixel_mask_def upt_rec example_sem_lbl_def example_inst_lbl_def)

text \<open>
  Claim C1 (label combiner round-trip). For label maps of equal shape and a channel layout
  of two parallel lists whose (semantic class, instance slot) pairs are pairwise distinct,
  the combiner returns a map, and every pixel of it that is not void holds a channel index
  \<open>y\<close> within the layout with \<open>semantic_instance_class_list[y]\<close> the pixel's semantic
  label and \<open>instance_count_id_list[y]\<close> its instance label.
\<close>

theorem combine_round_trip:
  assumes "shape sem_lbl = shape inst_lbl" "wf_ndarray sem_lbl" "wf_ndarray inst_lbl"
    and "length icil = length sicl" "distinct (zip sicl icil)"
  shows "\<exists>y. combine_semantic_and_instance_labels sem_lbl inst_lbl sicl icil True void = Inr y \<and>
             (\<forall>p<length (data y). data y ! p \<noteq> void \<longrightarrow>
                0 \<le> data y ! p \<and> nat (data y ! p) < length sicl \<and>
                sicl ! nat (data y ! p) = data sem_lbl ! p \<and>
                icil ! nat (data y ! p) = data inst_lbl ! p)"
proof -
  from combine_labelled[OF assms(1-4)] obtain y where
    y: "combine_semantic_and_instance_labels sem_lbl inst_lbl sicl icil True void = Inr y"
    and lab: "labelled (data sem_lbl) (data inst_lbl) sicl icil void (data y)"
    by blast
  have "0 \<le> data y ! p \<and> nat (data y ! p) < length sicl \<and>
        sicl ! nat (data y ! p) = data sem_lbl ! p \<and>
        icil ! nat (data y ! p) = data inst_lbl ! p"
    if "p < length (data y)" "data y ! p \<noteq> void" for p
  proof -
    from lab that obtain i where
      "owns sicl icil i (data sem_lbl ! p) (data inst_lbl ! p)" "data y ! p = int i"
      unfolding labelled_def by auto
    then show ?thesis by (simp add: owns_def)
  qed
  with y show ?thesis by blast
qed

theorem combine_round_trip_witness:
  "shape example_sem_lbl = shape example_inst_lbl \<and> wf_ndarray example_sem_lbl \<and>
   wf_ndarray example_inst_lbl \<and> length [0, 1, 2 :: int] = length [0, 1, 1 :: int] \<and>
   distinct (zip [0, 1, 1 :: int] [0, 1, 2 :: int]) \<and>
   (\<exists>y. combine_semantic_and_instance_labels example_sem_lbl example_inst_lbl
           [0, 1, 1] [0, 1, 2] True (- 1) = Inr y \<and>
        (\<forall>p<length (data y). data y ! p \<noteq> - 1 \<longrightarrow>
           0 \<le> data y ! p \<and> nat (data y ! p) < length [0, 1, 1 :: int] \<and>
           [0, 1, 1] ! nat (data y ! p) = data example_sem_lbl ! p \<and>
           [0, 1, 2] ! nat (data y ! p) = data example_inst_lbl ! p))"
proof -
  have l: "length [0, 1, 2 :: int] = length [0, 1, 1 :: int]" by simp
  have d: "distinct (zip [0, 1, 1 :: int] [0, 1, 2 :: int])" by simp
  show ?thesis
    using combine_round_trip[OF example_shapes example_wf l d, of "- 1"]
      example_shapes example_wf l d
    by blast
qed



text \<open>
  Claim C3 (output range and void propagation). With the default void value -1 and
  non-negative entries in both layout lists, the combiner returns a map of the shape of
  its inputs whose every pixel is -1 or lies in \<open>[0, n_channels)\<close>, and a pixel that is -1
  in the semantic or in the instance map is -1 in the output.
\<close>

theorem combine_range_and_void:
  assumes "shape sem_lbl = shape inst_lbl" "wf_ndarray sem_lbl" "wf_ndarray inst_lbl"
    and "length icil = length sicl"
    and "\<forall>s\<in>set sicl. 0 \<le> s" "\<forall>n\<in>set icil. 0 \<le> n"
  shows "\<exists>y. combine_semantic_and_instance_labels sem_lbl inst_lbl sicl icil True (- 1) = Inr y \<and>
             shape y = shape inst_lbl \<and> wf_ndarray y \<and>
             (\<forall>p<length (data y).
                (data y ! p = - 1 \<or> (0 \<le> data y ! p \<and> data y ! p < int (length sicl))) \<and>
                (data sem_lbl ! p = - 1 \<or> data inst_lbl ! p = - 1 \<longrightarrow> data y ! p = - 1))"
proof -
  from combine_labelled[OF assms(1-4)] obtain y where
    y: "combine_semantic_and_instance_labels sem_lbl inst_lbl sicl icil True (- 1) = Inr y"
    and sh: "shape y = shape inst_lbl"
    and lab: "labelled (data sem_lbl) (data inst_lbl) sicl icil (- 1) (data y)"
    by blast
  from lab have len: "length (data y) = length (data inst_lbl)"
    by (simp add: labelled_def)
  have wf: "wf_ndarray y"
    using sh len assms(3) by (simp add: wf_ndarray_def)
  have "(data y ! p = - 1 \<or> (0 \<le> data y ! p \<and> data y ! p < int (length sicl))) \<and>
        (data sem_lbl ! p = - 1 \<or> data inst_lbl ! p = - 1 \<longrightarrow> data y ! p = - 1)"
    if p: "p < length (data y)" for p
  proof (cases "data y ! p = - 1")
    case True
    then show ?thesis by simp
  next
    case False
    with lab p len obtain i where
      i: "owns sicl icil i (data sem_lbl ! p) (data inst_lbl ! p)" "data y ! p = int i"
      unfolding labelled_def by auto
    from i(1) have "0 \<le> data sem_lbl ! p" "0 \<le> data inst_lbl ! p"
      using assms(5,6) nth_mem[of i sicl] nth_mem[of i icil] by (auto simp: owns_def)
    with i show ?thesis by (auto simp: owns_def)
  qed
  with y sh wf show ?thesis by blast
qed

theorem combine_range_and_void_witness:
  "shape example_sem_lbl = shape example_inst_lbl \<and> wf_ndarray example_sem_lbl \<and>
   wf_ndarray example_inst_lbl \<and> length [0, 1, 2 :: int] = length [0, 1, 1 :: int] \<and>
   list_all (\<lambda>s. 0 \<le> s) [0, 1, 1 :: int] \<and> list_all (\<lambda>n. 0 \<le> n) [0, 1, 2 :: int] \<and>
   (\<exists>y. combine_semantic_and_instance_labels example_sem_lbl example_inst_lbl
           [0, 1, 1] [0, 1, 2] True (- 1) = Inr y \<and>
        shape y = shape example_inst_lbl \<and> wf_ndarray y \<and>
        (\<forall>p<length (data y).
           (data y ! p = - 1 \<or> (0 \<le> data y ! p \<and> data y ! p < int (length [0, 1, 1 :: int]))) \<and>
           (data example_sem_lbl ! p = - 1 \<or> data example_inst_lbl ! p = - 1 \<longrightarrow> data y ! p = - 1)))"
proof -
  have l: "length [0, 1, 2 :: int] = length [0, 1, 1 :: int]" by simp
  have s: "\<forall>s\<in>set [0, 1, 1 :: int]. 0 \<le> s" by simp
  have n: "\<forall>n\<in>set [0, 1, 2 :: int]. 0 \<le> n" by simp
  show ?thesis
    using combine_range_and_void[OF example_shapes example_wf l s n]
      example_shapes example_wf l
    by simp
qed

section \<open>The channel layout: proofs\<close>

lemma length_layout_from:
  "length (concat (map (\<lambda>(c, k). replicate (nat k) (int c)) (enumerate m n))) =
   sum_list (map nat n)"
  by (induction n arbitrary: m) auto

lemma length_get_semantic_instance_class_list:
  "length (get_semantic_instance_class_list n) = sum_list (map nat n)"
  by (simp add: get_semantic_instance_class_list_def length_layout_from)

lemma int_sum_list_nat: "\<forall>k\<in>set n. 0 \<le> k \<Longrightarrow> int (sum_list (map nat n)) = sum_list n"
  by (induction n) auto

lemma filter_layout_from:
  "filter (\<lambda>s. s = int c) (concat (map (\<lambda>(c, k). replicate (nat k) (int c)) (enumerate m n))) =
   (if m \<le> c \<and> c < m + length n then replicate (nat (n ! (c - m))) (int c) else [])"
proof (induction n arbitrary: m)
  case Nil
  then show ?case by simp
next
  case (Cons k n)
  show ?case
  proof (cases "c = m")
    case True
    then show ?thesis using Cons.IH[of "Suc m"] by simp
  next
    case False
    then show ?thesis using Cons.IH[of "Suc m"]
      by (auto simp: Suc_diff_le nth_Cons')
  qed
qed

lemma count_true_eq_filter:
  "count_true (map (\<lambda>s. s = c) xs) = length (filter (\<lambda>s. s = c) xs)"
  by (induction xs) (auto simp: count_true_def)

lemma count_class_layout:
  "c < length n \<Longrightarrow>
   count_true (map (\<lambda>s. s = int c) (get_semantic_instance_class_list n)) = nat (n ! c)"
  by (simp add: count_true_eq_filter get_semantic_instance_class_list_def filter_layout_from)

lemma length_put_arange: "length (put_arange locs k arr) = length arr"
  by (induction locs k arr rule: put_arange.induct) auto

lemma count_true_Cons: "count_true (l # ls) = (if l then Suc (count_true ls) else count_true ls)"
  by (simp add: count_true_def)

lemma count_true_Nil: "count_true [] = 0"
  by (simp add: count_true_def)

lemma nth_put_arange:
  "length locs = length arr \<Longrightarrow> i < length arr \<Longrightarrow>
   put_arange locs k arr ! i = (if locs ! i then k + int (count_true (take i locs)) else arr ! i)"
proof (induction locs k arr arbitrary: i rule: put_arange.induct)
  case (1 l ls k a as)
  then show ?case
    by (cases i) (auto simp: count_true_Cons count_true_Nil)
qed simp_all


lemma count_true_append: "count_true (xs @ ys) = count_true xs + count_true ys"
  by (simp add: count_true_def)

lemma count_true_take_Suc:
  "i < length xs \<Longrightarrow>
   count_true (take (Suc i) xs) = count_true (take i xs) + (if xs ! i then 1 else 0)"
  by (simp add: take_Suc_conv_app_nth count_true_append count_true_Cons count_true_Nil)

lemma count_true_take_mono: "i \<le> j \<Longrightarrow> count_true (take i xs) \<le> count_true (take j xs)"
proof -
  assume "i \<le> j"
  then have "take j xs = take i xs @ take (j - i) (drop i xs)"
    by (metis le_add_diff_inverse take_add)
  then show ?thesis by (simp add: count_true_append)
qed

lemma count_true_take_le: "count_true (take i xs) \<le> count_true xs"
  using count_true_take_mono[of i "max i (length xs)" xs] by simp

lemma rank_less:
  assumes "i < j" "j < length xs" "xs ! i"
  shows "count_true (take i xs) < count_true (take j xs)"
proof -
  have "count_true (take (Suc i) xs) = count_true (take i xs) + 1"
    using assms by (simp add: count_true_take_Suc)
  moreover have "count_true (take (Suc i) xs) \<le> count_true (take j xs)"
    using assms(1) by (intro count_true_take_mono) simp
  ultimately show ?thesis by simp
qed

lemma two_channels_count:
  assumes "i < j" "j < length xs" "xs ! i" "xs ! j"
  shows "2 \<le> count_true xs"
proof -
  have "count_true (take i xs) < count_true (take j xs)"
    using rank_less[OF assms(1-3)] .
  moreover have "count_true (take (Suc j) xs) = count_true (take j xs) + 1"
    using assms by (simp add: count_true_take_Suc)
  moreover have "count_true (take (Suc j) xs) \<le> count_true xs"
    by (rule count_true_take_le)
  ultimately show ?thesis by simp
qed

lemma fill_step:
  assumes "length arr = length sicl" "i < length sicl"
  shows "(if c \<in> set ni then masked_assign (map (\<lambda>s. s = c) sicl) 0 arr
          else put_arange (map (\<lambda>s. s = c) sicl) (if inc then 0 else 1) arr) ! i =
         (if sicl ! i = c then slot_of sicl ni inc i else arr ! i)"
  using assms by (auto simp: nth_masked_assign nth_put_arange slot_of_def)

lemma fill_step_length:
  assumes "length arr = length sicl"
  shows "length (if c \<in> set ni then masked_assign (map (\<lambda>s. s = c) sicl) 0 arr
          else put_arange (map (\<lambda>s. s = c) sicl) (if inc then 0 else 1) arr) = length sicl"
  using assms by (simp add: length_masked_assign length_put_arange)

lemma fill_instance_count_ids_result:
  assumes "length arr = length sicl" "fill_instance_count_ids sicl ni inc cs arr = Inr arr'"
  shows "length arr' = length sicl \<and>
         (\<forall>i<length sicl. arr' ! i = (if sicl ! i \<in> set cs then slot_of sicl ni inc i else arr ! i)) \<and>
         (\<forall>c\<in>set cs. c \<in> set ni \<longrightarrow> count_true (map (\<lambda>s. s = c) sicl) = 1)"
  using assms
proof (induction cs arbitrary: arr)
  case Nil
  then show ?case by simp
next
  case (Cons c cs)
  let ?arr1 = "if c \<in> set ni then masked_assign (map (\<lambda>s. s = c) sicl) 0 arr
          else put_arange (map (\<lambda>s. s = c) sicl) (if inc then 0 else 1) arr"
  from Cons.prems(2) have ok: "c \<in> set ni \<longrightarrow> count_true (map (\<lambda>s. s = c) sicl) = 1"
    by (auto simp: Let_def split: if_splits)
  from Cons.prems(2) have rest: "fill_instance_count_ids sicl ni inc cs ?arr1 = Inr arr'"
    by (auto simp: Let_def split: if_splits)
  have len1: "length ?arr1 = length sicl"
    using fill_step_length[OF Cons.prems(1)] .
  from Cons.IH[OF len1 rest] have
    IH: "length arr' = length sicl"
      "\<forall>i<length sicl. arr' ! i = (if sicl ! i \<in> set cs then slot_of sicl ni inc i else ?arr1 ! i)"
      "\<forall>c\<in>set cs. c \<in> set ni \<longrightarrow> count_true (map (\<lambda>s. s = c) sicl) = 1"
    by blast+
  have "arr' ! i = (if sicl ! i \<in> set (c # cs) then slot_of sicl ni inc i else arr ! i)"
    if "i < length sicl" for i
    using IH(2) that fill_step[OF Cons.prems(1) that, of c ni inc] by auto
  with IH(1,3) ok show ?case by auto
qed

lemma fill_instance_count_ids_returns:
  "\<forall>c\<in>set cs. c \<in> set ni \<longrightarrow> count_true (map (\<lambda>s. s = c) sicl) = 1 \<Longrightarrow>
   \<exists>arr'. fill_instance_count_ids sicl ni inc cs arr = Inr arr'"
  by (induction cs arbitrary: arr) (auto simp: Let_def)

lemma fill_instance_count_ids_fails:
  "c \<in> set cs \<Longrightarrow> c \<in> set ni \<Longrightarrow> count_true (map (\<lambda>s. s = c) sicl) \<noteq> 1 \<Longrightarrow>
   fill_instance_count_ids sicl ni inc cs arr = Inl AssertionError"
  by (induction cs arbitrary: arr) (auto simp: Let_def)

lemma set_np_unique: "set (np_unique xs) = set xs"
  by (simp add: np_unique_def)

lemma fill_all_positions:
  assumes "length arr = length sicl"
    "fill_instance_count_ids sicl ni inc (np_unique sicl) arr = Inr arr'"
  shows "arr' = map (slot_of sicl ni inc) [0..<length sicl]"
  using fill_instance_count_ids_result[OF assms]
  by (intro nth_equalityI) (auto simp: set_np_unique)

lemma np_empty_contents_irrelevant:
  assumes "length arr = length sicl"
  shows "fill_instance_count_ids sicl ni inc (np_unique sicl) arr =
         get_instance_count_id_list sicl ni inc"
proof (cases "\<forall>c\<in>set (np_unique sicl). c \<in> set ni \<longrightarrow> count_true (map (\<lambda>s. s = c) sicl) = 1")
  case True
  from fill_instance_count_ids_returns[OF True] obtain a b where
    a: "fill_instance_count_ids sicl ni inc (np_unique sicl) arr = Inr a" and
    b: "fill_instance_count_ids sicl ni inc (np_unique sicl) (np_empty (length sicl)) = Inr b"
    by blast
  have "a = b"
    using fill_all_positions[OF assms a] fill_all_positions[OF _ b]
    by (simp add: np_empty_def)
  with a b show ?thesis by (simp add: get_instance_count_id_list_def)
next
  case False
  then obtain c where "c \<in> set (np_unique sicl)" "c \<in> set ni"
    "count_true (map (\<lambda>s. s = c) sicl) \<noteq> 1" by blast
  then show ?thesis
    by (simp add: get_instance_count_id_list_def fill_instance_count_ids_fails)
qed

lemma get_instance_count_id_list_result:
  assumes "get_instance_count_id_list sicl ni inc = Inr icil"
  shows "icil = map (slot_of sicl ni inc) [0..<length sicl]"
    and "\<forall>c\<in>set sicl. c \<in> set ni \<longrightarrow> count_true (map (\<lambda>s. s = c) sicl) = 1"
proof -
  have len: "length (np_empty (length sicl)) = length sicl" by (simp add: np_empty_def)
  from assms have f: "fill_instance_count_ids sicl ni inc (np_unique sicl)
                        (np_empty (length sicl)) = Inr icil"
    by (simp add: get_instance_count_id_list_def)
  show "icil = map (slot_of sicl ni inc) [0..<length sicl]"
    using fill_all_positions[OF len f] .
  show "\<forall>c\<in>set sicl. c \<in> set ni \<longrightarrow> count_true (map (\<lambda>s. s = c) sicl) = 1"
    using fill_instance_count_ids_result[OF len f] by (simp add: set_np_unique)
qed

lemma get_instance_count_id_list_returns:
  "\<forall>c\<in>set sicl. c \<in> set ni \<longrightarrow> count_true (map (\<lambda>s. s = c) sicl) = 1 \<Longrightarrow>
   \<exists>icil. get_instance_count_id_list sicl ni inc = Inr icil"
  unfolding get_instance_count_id_list_def
  by (rule fill_instance_count_ids_returns) (simp add: set_np_unique)

lemma get_instance_count_id_list_fails:
  "c \<in> set sicl \<Longrightarrow> c \<in> set ni \<Longrightarrow> count_true (map (\<lambda>s. s = c) sicl) \<noteq> 1 \<Longrightarrow>
   get_instance_count_id_list sicl ni inc = Inl AssertionError"
  unfolding get_instance_count_id_list_def
  by (rule fill_instance_count_ids_fails) (simp_all add: set_np_unique)

lemma slot_of_neq:
  assumes "i < j" "j < length sicl" "sicl ! i = sicl ! j"
    and "sicl ! i \<in> set ni \<longrightarrow> count_true (map (\<lambda>s. s = sicl ! i) sicl) = 1"
  shows "slot_of sicl ni inc i \<noteq> slot_of sicl ni inc j"
proof (cases "sicl ! i \<in> set ni")
  case True
  have "2 \<le> count_true (map (\<lambda>s. s = sicl ! i) sicl)"
    using assms(1-3) by (intro two_channels_count[of i j]) simp_all
  with True assms(4) show ?thesis by simp
next
  case False
  have "count_true (take i (map (\<lambda>s. s = sicl ! i) sicl)) <
        count_true (take j (map (\<lambda>s. s = sicl ! i) sicl))"
    using assms(1-3) by (intro rank_less) simp_all
  with False assms(3) show ?thesis by (simp add: slot_of_def)
qed

lemma layout_pairs_distinct:
  assumes "get_instance_count_id_list sicl ni inc = Inr icil"
  shows "length icil = length sicl" and "distinct (zip sicl icil)"
proof -
  note r = get_instance_count_id_list_result[OF assms]
  show len: "length icil = length sicl" using r(1) by simp
  have neq: "zip sicl icil ! i \<noteq> zip sicl icil ! j" if "i < j" "j < length sicl" for i j
  proof (cases "sicl ! i = sicl ! j")
    case True
    have "sicl ! i \<in> set sicl" using that by simp
    with r(2) have "sicl ! i \<in> set ni \<longrightarrow> count_true (map (\<lambda>s. s = sicl ! i) sicl) = 1"
      by blast
    from slot_of_neq[OF that True this] show ?thesis
      using that r(1) by simp
  next
    case False
    then show ?thesis using that len by simp
  qed
  show "distinct (zip sicl icil)"
    unfolding distinct_conv_nth
  proof (intro allI impI)
    fix i j assume "i < length (zip sicl icil)" "j < length (zip sicl icil)" "i \<noteq> j"
    then have "i < length sicl" "j < length sicl" using len by simp_all
    with \<open>i \<noteq> j\<close> show "zip sicl icil ! i \<noteq> zip sicl icil ! j"
      using neq[of i j] neq[of j i] by (cases "i < j") (auto simp: not_less)
  qed
qed

text \<open>The examples of the two docstrings.\<close>

lemma docstring_sicl: "get_semantic_instance_class_list [1, 3, 3, 3] = [0, 1, 1, 1, 2, 2, 2, 3, 3, 3]"
  by (simp add: get_semantic_instance_class_list_def numeral_eq_Suc)

lemma docstring_icil:
  "get_instance_count_id_list [0, 1, 1, 1, 2, 2, 2, 3, 3, 3] [0] False = Inr [0, 1, 2, 3, 1, 2, 3, 1, 2, 3]"
  "get_instance_count_id_list [0, 1, 1, 1, 2, 2, 2, 3, 3, 3] [0] True = Inr [0, 0, 1, 2, 0, 1, 2, 0, 1, 2]"
  by (simp_all add: get_instance_count_id_list_def np_unique_def np_empty_def count_true_def
        masked_assign_def numeral_eq_Suc)

lemma layout_from_members:
  "x \<in> set (concat (map (\<lambda>(c, k). replicate (nat k) (int c)) (enumerate m n))) \<Longrightarrow>
   \<exists>c. x = int c \<and> m \<le> c \<and> c < m + length n"
proof (induction n arbitrary: m)
  case Nil
  then show ?case by simp
next
  case (Cons k n)
  from Cons.prems consider "x = int m"
    | "x \<in> set (concat (map (\<lambda>(c, k). replicate (nat k) (int c)) (enumerate (Suc m) n)))"
    by (auto split: if_splits)
  then show ?case
  proof cases
    case 1
    then show ?thesis by auto
  next
    case 2
    from Cons.IH[OF 2] obtain c where "x = int c" "Suc m \<le> c" "c < Suc m + length n" by blast
    then show ?thesis by (intro exI[of _ c]) simp
  qed
qed

lemma layout_members:
  "x \<in> set (get_semantic_instance_class_list n) \<Longrightarrow> \<exists>c<length n. x = int c"
  using layout_from_members[of x 0 n] by (auto simp: get_semantic_instance_class_list_def)

lemma one_channel_layout_from:
  "concat (map (\<lambda>(c, k). replicate (nat k) (int c)) (enumerate m (map (\<lambda>_. 1) n))) =
   map int [m..<m + length n]"
proof (induction n arbitrary: m)
  case Nil
  then show ?case by simp
next
  case (Cons k n)
  have "[m..<m + length (k # n)] = m # [Suc m..<Suc m + length n]"
    by (simp add: upt_rec)
  with Cons.IH[of "Suc m"] show ?case by simp
qed

lemma one_channel_layout:
  "get_semantic_instance_class_list (map (\<lambda>_. 1) n) = map int [0..<length n]"
  using one_channel_layout_from[of 0 n] by (simp add: get_semantic_instance_class_list_def)

lemma fill_instance_count_ids_error:
  "fill_instance_count_ids sicl ni inc cs arr = Inl e \<Longrightarrow> e = AssertionError"
  by (induction cs arbitrary: arr) (auto simp: Let_def split: if_splits)

lemma get_instance_count_id_list_error:
  "get_instance_count_id_list sicl ni inc = Inl e \<Longrightarrow> e = AssertionError"
  unfolding get_instance_count_id_list_def by (rule fill_instance_count_ids_error)

text \<open>
  Claim C4 (channel layout round-trip). For counts that are all at least 1 and are exactly
  1 for every non-instance class, \<open>get_instance_count_id_list\<close> returns, each of the two
  parallel lists has as many entries as the sum of the counts, and the (semantic class,
  instance slot) pairs of the channels are pairwise distinct, so that no pair stands for
  two channels.
\<close>

theorem channel_layout_round_trip:
  assumes "\<forall>k\<in>set n. 1 \<le> k"
    and "\<forall>c\<in>set ni. 0 \<le> c \<and> nat c < length n \<longrightarrow> n ! nat c = 1"
  shows "\<exists>icil. get_instance_count_id_list (get_semantic_instance_class_list n) ni inc = Inr icil \<and>
           int (length (get_semantic_instance_class_list n)) = sum_list n \<and>
           length icil = length (get_semantic_instance_class_list n) \<and>
           distinct (zip (get_semantic_instance_class_list n) icil)"
proof -
  let ?sicl = "get_semantic_instance_class_list n"
  have "count_true (map (\<lambda>s. s = c) ?sicl) = 1" if "c \<in> set ?sicl" "c \<in> set ni" for c
  proof -
    from layout_members[OF that(1)] obtain c' where c': "c' < length n" "c = int c'" by blast
    with assms(2) that(2) have "n ! c' = 1" by auto
    with c' show ?thesis by (simp add: count_class_layout)
  qed
  then obtain icil where icil: "get_instance_count_id_list ?sicl ni inc = Inr icil"
    using get_instance_count_id_list_returns[of ?sicl ni inc] by blast
  have "\<forall>k\<in>set n. 0 \<le> k" using assms(1) by auto
  then have "int (length ?sicl) = sum_list n"
    by (simp add: length_get_semantic_instance_class_list int_sum_list_nat)
  with icil layout_pairs_distinct[OF icil] show ?thesis by simp
qed

theorem channel_layout_round_trip_witness:
  "list_all (\<lambda>k. 1 \<le> k) [1, 3, 3 :: int] \<and>
   list_all (\<lambda>c. 0 \<le> c \<and> nat c < length [1, 3, 3 :: int] \<longrightarrow> [1, 3, 3 :: int] ! nat c = 1) [0] \<and>
   get_semantic_instance_class_list [1, 3, 3] = [0, 1, 1, 1, 2, 2, 2] \<and>
   (\<exists>icil. get_instance_count_id_list (get_semantic_instance_class_list [1, 3, 3]) [0] False = Inr icil \<and>
           int (length (get_semantic_instance_class_list [1, 3, 3])) = sum_list [1, 3, 3] \<and>
           length icil = length (get_semantic_instance_class_list [1, 3, 3]) \<and>
           distinct (zip (get_semantic_instance_class_list [1, 3, 3]) icil))"
proof -
  have a: "\<forall>k\<in>set [1, 3, 3 :: int]. 1 \<le> k" by simp
  have b: "\<forall>c\<in>set [0 :: int]. 0 \<le> c \<and> nat c < length [1, 3, 3 :: int] \<longrightarrow> [1, 3, 3 :: int] ! nat c = 1"
    by simp
  have c: "get_semantic_instance_class_list [1, 3, 3] = [0, 1, 1, 1, 2, 2, 2]"
    by (simp add: get_semantic_instance_class_list_def numeral_eq_Suc)
  show ?thesis
    using channel_layout_round_trip[OF a b, of False] c by simp
qed

text \<open>
  Claim C5 says that a class with channel count 0 makes the construction fail. It does
  not: for the counts \<open>[1, 0, 2]\<close> the layout is built, class 1 owning no channel.
\<close>

theorem zero_count_layout_counterexample:
  "get_semantic_instance_class_list [1, 0, 2] = [0, 2, 2] \<and>
   get_instance_count_id_list (get_semantic_instance_class_list [1, 0, 2]) [0] False = Inr [0, 1, 2] \<and>
   map_sum id (\<lambda>cfg. (semantic_instance_class_list cfg, instance_count_id_list cfg))
     (InstanceProblemConfig_init (Some [1, 0, 2]) None None (- 1) False False) = Inr ([0, 2, 2], [0, 1, 2])"
  by (simp add: InstanceProblemConfig_init_def get_semantic_instance_class_list_def
        get_instance_count_id_list_def np_unique_def np_empty_def count_true_def
        masked_assign_def get_instance_to_semantic_mapping_def
        get_instance_to_semantic_mapping_from_sem_inst_class_list_def py_max_def python_index_def
        numeral_eq_Suc Let_def)

lemma non_instance_class_overfull:
  assumes "n \<noteq> []" "2 \<le> n ! 0"
  shows "get_instance_count_id_list (get_semantic_instance_class_list n) [0] inc = Inl AssertionError"
proof -
  let ?sicl = "get_semantic_instance_class_list n"
  have len: "0 < length n" using assms(1) by simp
  have cnt: "count_true (map (\<lambda>s. s = int 0) ?sicl) = nat (n ! 0)"
    by (rule count_class_layout[OF len])
  then have c: "count_true (map (\<lambda>s. s = 0) ?sicl) \<noteq> 1" using assms(2) by simp
  have "filter (\<lambda>s. s = 0) ?sicl \<noteq> []"
    using cnt assms(2) by (auto simp: count_true_eq_filter)
  then have "0 \<in> set ?sicl"
    by (metis (mono_tags, lifting) filter_False)
  then show ?thesis
    using c by (intro get_instance_count_id_list_fails[of 0]) simp_all
qed

text \<open>
  Claim C5, as amended. When the non-instance class, semantic id 0, has two or more
  channels, \<open>get_instance_count_id_list\<close> fails its assertion, and so does the
  construction of an \<open>InstanceProblemConfig\<close> from these counts, whatever its other
  arguments.
\<close>

theorem overfull_non_instance_class_fails:
  assumes "n \<noteq> []" "2 \<le> n ! 0"
  shows "get_instance_count_id_list (get_semantic_instance_class_list n) [0] include_channel0
           = Inl AssertionError \<and>
         InstanceProblemConfig_init (Some n) names vals void include_channel0 m2s
           = Inl AssertionError"
proof -
  note f = non_instance_class_overfull[OF assms, of include_channel0]
  have "InstanceProblemConfig_init (Some n) names vals void include_channel0 m2s
           = Inl AssertionError"
  proof (cases m2s)
    case False
    with f show ?thesis
      by (simp add: InstanceProblemConfig_init_def Let_def split: option.splits)
  next
    case True
    show ?thesis
    proof (cases "get_instance_count_id_list (get_semantic_instance_class_list (map (\<lambda>_. 1) n))
                    [0] include_channel0")
      case (Inl e)
      then have "e = AssertionError" by (rule get_instance_count_id_list_error)
      with Inl True show ?thesis
        by (simp add: InstanceProblemConfig_init_def Let_def split: option.splits)
    next
      case (Inr icil)
      with True f show ?thesis
        by (simp add: InstanceProblemConfig_init_def Let_def split: option.splits)
    qed
  qed
  with f show ?thesis by simp
qed

theorem overfull_non_instance_class_fails_witness:
  "[2, 3 :: int] \<noteq> [] \<and> 2 \<le> [2, 3 :: int] ! 0 \<and>
   get_instance_count_id_list (get_semantic_instance_class_list [2, 3]) [0] False
     = Inl AssertionError \<and>
   InstanceProblemConfig_init (Some [2, 3]) None None (- 1) False False = Inl AssertionError"
proof -
  have a: "[2, 3 :: int] \<noteq> []" by simp
  have b: "2 \<le> [2, 3 :: int] ! 0" by simp
  show ?thesis
    using overfull_non_instance_class_fails[OF a b, of False None None "- 1" False] by simp
qed

section \<open>InstanceProblemConfig: proofs\<close>

text \<open>
  Claim C9 (\<open>map_to_semantic\<close> collapses the instance channels). A configuration
  constructed with \<open>map_to_semantic=True\<close> from counts for \<open>S\<close> classes has the channel
  list \<open>[0, \<dots>, S - 1]\<close>, and both \<open>n_classes\<close> and \<open>n_semantic_classes\<close> are \<open>S\<close>.
\<close>

theorem map_to_semantic_one_channel_per_class:
  assumes "InstanceProblemConfig_init (Some n) names vals void inc True = Inr cfg"
  shows "semantic_instance_class_list cfg = map int [0..<length n] \<and>
         n_classes cfg = length n \<and> n_semantic_classes cfg = length n"
proof -
  have v: "length (case vals of None \<Rightarrow> map int [0..<length n]
                   | Some v \<Rightarrow> if v = [] then map int [0..<length n] else v) = length n"
    using assms
    by (auto simp: InstanceProblemConfig_init_def split: option.splits if_splits)
  from assms obtain icil model_icil matrix where
    "cfg = \<lparr> map_to_semantic = True,
            semantic_class_names = names,
            semantic_vals = (case vals of None \<Rightarrow> map int [0..<length n]
                   | Some v \<Rightarrow> if v = [] then map int [0..<length n] else v),
            void_value = void,
            include_instance_channel0 = inc,
            n_instances_by_semantic_id = map (\<lambda>_. 1) n,
            model_n_instances_by_semantic_id = map (\<lambda>_. 1) n,
            model_semantic_instance_class_list = get_semantic_instance_class_list n,
            semantic_instance_class_list = get_semantic_instance_class_list (map (\<lambda>_. 1) n),
            n_semantic_classes = length (case vals of None \<Rightarrow> map int [0..<length n]
                   | Some v \<Rightarrow> if v = [] then map int [0..<length n] else v),
            n_classes = length (case vals of None \<Rightarrow> map int [0..<length n]
                   | Some v \<Rightarrow> if v = [] then map int [0..<length n] else v),
            sem_ids_by_instance_id =
              concat (map (\<lambda>(id_into_sem_vals, n_inst). replicate (nat n_inst) (int id_into_sem_vals))
                          (enumerate 0 (map (\<lambda>_. 1) n))),
            instance_count_id_list = icil,
            model_instance_count_id_list = model_icil,
            instance_to_semantic_mapping_matrix = matrix,
            instance_to_semantic_conv1x1 =
              \<lparr> in_channels = length (get_semantic_instance_class_list n),
                out_channels = length (case vals of None \<Rightarrow> map int [0..<length n]
                   | Some v \<Rightarrow> if v = [] then map int [0..<length n] else v),
                kernel_size = 1, bias = False \<rparr> \<rparr>"
    unfolding InstanceProblemConfig_init_def Let_def
    by (auto split: if_splits sum.splits simp del: One_nat_def)
  then show ?thesis using v by (simp add: one_channel_layout)
qed

lemma init_example:
  "\<exists>cfg. InstanceProblemConfig_init (Some [1, 3, 3]) None None (- 1) False True = Inr cfg"
  by (simp add: InstanceProblemConfig_init_def get_semantic_instance_class_list_def
        get_instance_count_id_list_def np_unique_def np_empty_def count_true_def
        masked_assign_def get_instance_to_semantic_mapping_def
        get_instance_to_semantic_mapping_from_sem_inst_class_list_def py_max_def python_index_def
        numeral_eq_Suc Let_def)

theorem map_to_semantic_one_channel_per_class_witness:
  "map_sum id (\<lambda>cfg. (semantic_instance_class_list cfg, n_classes cfg, n_semantic_classes cfg))
     (InstanceProblemConfig_init (Some [1, 3, 3]) None None (- 1) False True)
   = Inr ([0, 1, 2], 3, 3)"
proof -
  from init_example obtain cfg where
    cfg: "InstanceProblemConfig_init (Some [1, 3, 3]) None None (- 1) False True = Inr cfg"
    by blast
  from map_to_semantic_one_channel_per_class[OF cfg] cfg show ?thesis
    by (simp add: upt_rec numeral_eq_Suc)
qed

lemma init_example_config:
  "InstanceProblemConfig_init (Some [1, 2]) None None (- 1) False False = Inr example_config"
  by (simp add: InstanceProblemConfig_init_def get_semantic_instance_class_list_def
        get_instance_count_id_list_def np_unique_def np_empty_def count_true_def
        masked_assign_def get_instance_to_semantic_mapping_def
        get_instance_to_semantic_mapping_from_sem_inst_class_list_def py_max_def python_index_def
        numeral_eq_Suc Let_def example_config_def)

text \<open>
  Claim C8 says that no operation changes a field of a configuration once it is
  constructed. \<open>set_class_names\<close> does: the configuration constructed from the counts
  \<open>[1, 2]\<close> has no class names, and has them after the call.
\<close>

theorem set_class_names_counterexample:
  "InstanceProblemConfig_init (Some [1, 2]) None None (- 1) False False = Inr example_config \<and>
   semantic_class_names example_config = None \<and>
   map_sum id semantic_class_names
     (set_class_names example_config (Some [''background'', ''person'']))
     = Inr (Some [''background'', ''person''])"
  using init_example_config by (simp add: set_class_names_def example_config_def)

lemma set_class_names_guard:
  "set_class_names self class_names =
     (if class_names_fit self class_names
      then Inr (self\<lparr>semantic_class_names := class_names\<rparr>) else Inl AssertionError)"
  by (cases class_names) (simp_all add: set_class_names_def class_names_fit_def)

lemma call_method_set_class_names:
  "call_method str_format self (Set_class_names class_names) =
     (if class_names_fit self class_names
      then (self\<lparr>semantic_class_names := class_names\<rparr>, Inr Returned_None)
      else (self, Inl AssertionError))"
  by (simp add: set_class_names_guard)

lemma call_method_reads:
  "\<not> is_set_class_names c \<Longrightarrow> fst (call_method str_format self c) = self"
  by (cases c) simp_all

lemma call_method_step:
  assumes "s1 = fst (call_method str_format self c)"
  shows "s1 = self\<lparr>semantic_class_names := semantic_class_names s1\<rparr>"
    and "semantic_class_names s1 = semantic_class_names self \<or>
         (c = Set_class_names (semantic_class_names s1) \<and>
          class_names_fit self (semantic_class_names s1))"
    and "n_semantic_classes s1 = n_semantic_classes self"
proof -
  show "s1 = self\<lparr>semantic_class_names := semantic_class_names s1\<rparr>"
    unfolding assms by (cases c) (simp_all add: set_class_names_guard)
  show "semantic_class_names s1 = semantic_class_names self \<or>
         (c = Set_class_names (semantic_class_names s1) \<and>
          class_names_fit self (semantic_class_names s1))"
    unfolding assms by (cases c) (simp_all add: set_class_names_guard)
  show "n_semantic_classes s1 = n_semantic_classes self"
    unfolding assms by (cases c) (simp_all add: set_class_names_guard)
qed

lemma after_calls_snoc:
  "after_calls str_format self (calls @ [c]) =
   fst (call_method str_format (after_calls str_format self calls) c)"
  by (simp add: after_calls_def)

lemma class_names_fit_cong:
  "n_semantic_classes s = n_semantic_classes t \<Longrightarrow> class_names_fit s = class_names_fit t"
  by (rule ext) (simp add: class_names_fit_def split: option.splits)

lemma after_calls_invariant:
  "after_calls str_format self calls =
     self\<lparr>semantic_class_names := semantic_class_names (after_calls str_format self calls)\<rparr> \<and>
   (semantic_class_names (after_calls str_format self calls) = semantic_class_names self \<or>
    (Set_class_names (semantic_class_names (after_calls str_format self calls)) \<in> set calls \<and>
     class_names_fit self (semantic_class_names (after_calls str_format self calls))))"
proof (induction calls rule: rev_induct)
  case Nil
  show ?case by (simp add: after_calls_def)
next
  case (snoc c calls)
  let ?s = "after_calls str_format self calls"
  let ?s1 = "after_calls str_format self (calls @ [c])"
  have s1: "?s1 = fst (call_method str_format ?s c)" by (rule after_calls_snoc)
  note step = call_method_step[OF s1]
  from snoc.IH have eq: "?s = self\<lparr>semantic_class_names := semantic_class_names ?s\<rparr>" by blast
  have "n_semantic_classes (self\<lparr>semantic_class_names := semantic_class_names ?s\<rparr>)
          = n_semantic_classes self" by simp
  with eq have n: "n_semantic_classes ?s = n_semantic_classes self" by simp
  have fit: "class_names_fit ?s = class_names_fit self"
    by (rule class_names_fit_cong[OF n])
  have "?s1 = ?s\<lparr>semantic_class_names := semantic_class_names ?s1\<rparr>" by (rule step(1))
  also have "\<dots> = self\<lparr>semantic_class_names := semantic_class_names ?s1\<rparr>"
    by (subst eq) simp
  finally have a: "?s1 = self\<lparr>semantic_class_names := semantic_class_names ?s1\<rparr>" .
  from step(2) have b: "semantic_class_names ?s1 = semantic_class_names self \<or>
    (Set_class_names (semantic_class_names ?s1) \<in> set (calls @ [c]) \<and>
     class_names_fit self (semantic_class_names ?s1))"
  proof
    assume "semantic_class_names ?s1 = semantic_class_names ?s"
    with snoc.IH show ?thesis by auto
  next
    assume "c = Set_class_names (semantic_class_names ?s1) \<and>
            class_names_fit ?s (semantic_class_names ?s1)"
    then show ?thesis using fit by simp
  qed
  from a b show ?case by blast
qed

lemma after_calls_reads:
  "list_all (\<lambda>c. \<not> is_set_class_names c) calls \<Longrightarrow> after_calls str_format self calls = self"
proof (induction calls rule: rev_induct)
  case Nil
  show ?case by (simp add: after_calls_def)
next
  case (snoc c calls)
  then show ?case by (simp add: after_calls_snoc call_method_reads)
qed

text \<open>
  Claim C8, as amended. A call of \<open>set_class_names\<close> replaces \<open>semantic_class_names\<close>
  when its argument is \<open>None\<close> or has \<open>n_semantic_classes\<close> entries, and otherwise raises
  AssertionError and changes nothing. After any sequence of calls of the methods of the
  class, every field other than \<open>semantic_class_names\<close> has the value it had before;
  \<open>semantic_class_names\<close> has its former value or the argument of a call of
  \<open>set_class_names\<close> in the sequence that passed this check; and a sequence without
  \<open>set_class_names\<close> leaves the object as it was.
\<close>

theorem config_changes_only_by_set_class_names:
  "(call_method str_format self (Set_class_names class_names) =
      (if class_names_fit self class_names
       then (self\<lparr>semantic_class_names := class_names\<rparr>, Inr Returned_None)
       else (self, Inl AssertionError))) \<and>
   after_calls str_format self calls =
     self\<lparr>semantic_class_names := semantic_class_names (after_calls str_format self calls)\<rparr> \<and>
   (semantic_class_names (after_calls str_format self calls) = semantic_class_names self \<or>
    (Set_class_names (semantic_class_names (after_calls str_format self calls)) \<in> set calls \<and>
     class_names_fit self (semantic_class_names (after_calls str_format self calls)))) \<and>
   (list_all (\<lambda>c. \<not> is_set_class_names c) calls \<longrightarrow>
      after_calls str_format self calls = self)"
  using call_method_set_class_names[of str_format self class_names]
    after_calls_invariant[of str_format self calls] after_calls_reads[of calls str_format self]
  by blast

text \<open>The labels of the three channels of the example, once the classes are named.\<close>

lemma example_labels:
  "get_channel_labels example_format
     (example_config\<lparr>semantic_class_names := Some [''background'', ''person'']\<rparr>) ''{}_{}''
   = Inr [''background_0'', ''person_1'', ''person_2'']"
  by (simp add: get_channel_labels_def get_channel_labels_static_def example_config_def
        python_index_def example_format_def char_of_def)

theorem config_changes_only_by_set_class_names_witness:
  "list_all (\<lambda>c. \<not> is_set_class_names c) [Get_channel_labels ''{}_{}'', Decouple_instance_result] \<and>
   after_calls example_format example_config
     [Get_channel_labels ''{}_{}'', Decouple_instance_result] = example_config \<and>
   after_calls example_format example_config
     [Set_class_names (Some [''person'']), Get_channel_labels ''{}_{}'',
      Set_class_names (Some [''background'', ''person'']), Decouple_instance_result]
     = example_config\<lparr>semantic_class_names := Some [''background'', ''person'']\<rparr> \<and>
   call_method example_format example_config (Set_class_names (Some [''person'']))
     = (example_config, Inl AssertionError)"
proof -
  have r: "list_all (\<lambda>c. \<not> is_set_class_names c)
             [Get_channel_labels ''{}_{}'', Decouple_instance_result]"
    by simp
  have f: "\<not> class_names_fit example_config (Some [''person''])"
    "class_names_fit example_config (Some [''background'', ''person''])"
    by (simp_all add: class_names_fit_def example_config_def)
  note t = config_changes_only_by_set_class_names[of example_format example_config
      "Some [''person'']" "[Get_channel_labels ''{}_{}'', Decouple_instance_result]"]
  from t r have 1: "after_calls example_format example_config
     [Get_channel_labels ''{}_{}'', Decouple_instance_result] = example_config"
    by blast
  from t f(1) have 2: "call_method example_format example_config (Set_class_names (Some [''person'']))
     = (example_config, Inl AssertionError)"
    by simp
  have 3: "after_calls example_format example_config
     [Set_class_names (Some [''person'']), Get_channel_labels ''{}_{}'',
      Set_class_names (Some [''background'', ''person'']), Decouple_instance_result]
     = example_config\<lparr>semantic_class_names := Some [''background'', ''person'']\<rparr>"
    using f by (simp add: after_calls_def set_class_names_guard class_names_fit_def)
  from r 1 2 3 show ?thesis by blast
qed

section \<open>The trainer: proofs\<close>

lemma size_of_simps:
  "k < length (shape t) \<Longrightarrow> size_of t k = Inr (shape t ! k)"
  "\<not> k < length (shape t) \<Longrightarrow> size_of t k = Inl IndexError"
  by (simp_all add: size_of_def)

lemma compute_loss_mismatch:
  assumes "\<not> sizes_match score sem_lbl inst_lbl"
  shows "compute_loss self score sem_lbl inst_lbl val_matching_override =
           ([], Inl (if shape sem_lbl = shape inst_lbl \<and> length (shape score) < 4 then IndexError
                     else Exception ''Sizes of score, targets are incorrect''))"
proof (cases "shape sem_lbl = shape inst_lbl")
  case False
  then show ?thesis by (simp add: compute_loss_def)
next
  case True
  show ?thesis
  proof (cases "length (shape score) < 4")
    case short: True
    then consider "length (shape score) = 0" | "length (shape score) = 1"
      | "length (shape score) = 2" | "length (shape score) = 3" by linarith
    then show ?thesis
      using True by cases (simp_all add: compute_loss_def size_of_def)
  next
    case False
    with assms True have "shape inst_lbl \<noteq> [shape score ! 0, shape score ! 2, shape score ! 3]"
      by (auto simp: sizes_match_def)
    moreover from False have "0 < length (shape score)" "2 < length (shape score)"
      "3 < length (shape score)" by linarith+
    ultimately show ?thesis
      using True False by (simp add: compute_loss_def size_of_def)
  qed
qed

text \<open>
  Claim C7 (shape mismatch). When the two label maps do not both have the shape made of
  the dimensions 0, 2 and 3 of the score tensor, \<open>compute_loss\<close> raises, and its trace is
  empty: the loss function has not been called. When the two label maps differ in shape,
  \<open>combine_semantic_and_instance_labels\<close> fails its assertion and returns no map.
\<close>

theorem shape_mismatch_fails:
  "(\<not> sizes_match score sem_lbl inst_lbl \<longrightarrow>
      compute_loss self score sem_lbl inst_lbl val_matching_override =
        ([], Inl (if shape sem_lbl = shape inst_lbl \<and> length (shape score) < 4 then IndexError
                  else Exception ''Sizes of score, targets are incorrect''))) \<and>
   (shape sem_lbl \<noteq> shape inst_lbl \<longrightarrow>
      combine_semantic_and_instance_labels sem_lbl inst_lbl sicl icil set_extras_to_void void
        = Inl AssertionError)"
  using compute_loss_mismatch[of score sem_lbl inst_lbl self val_matching_override]
  by (simp add: combine_semantic_and_instance_labels_def)

theorem shape_mismatch_fails_witness:
  "\<not> sizes_match \<lparr>shape = [1, 3, 1, 2], data = replicate 6 (Finite 0)\<rparr>
       example_sem_lbl2 example_inst_lbl \<and>
   shape example_sem_lbl2 \<noteq> shape example_inst_lbl \<and>
   compute_loss (example_trainer (Finite 1) [])
       \<lparr>shape = [1, 3, 1, 2], data = replicate 6 (Finite 0)\<rparr> example_sem_lbl2 example_inst_lbl False
     = ([], Inl (Exception ''Sizes of score, targets are incorrect'')) \<and>
   combine_semantic_and_instance_labels example_sem_lbl2 example_inst_lbl [0, 1, 1] [0, 1, 2] True (- 1)
     = Inl AssertionError"
proof -
  have a: "\<not> sizes_match \<lparr>shape = [1, 3, 1, 2], data = replicate 6 (Finite 0)\<rparr>
       example_sem_lbl2 example_inst_lbl"
    by (simp add: sizes_match_def example_sem_lbl2_def example_inst_lbl_def)
  have b: "shape example_sem_lbl2 \<noteq> shape example_inst_lbl"
    by (simp add: example_sem_lbl2_def example_inst_lbl_def)
  show ?thesis
    using shape_mismatch_fails[of "\<lparr>shape = [1, 3, 1, 2], data = replicate 6 (Finite 0)\<rparr>"
        example_sem_lbl2 example_inst_lbl "example_trainer (Finite 1) []" False
        "[0, 1, 1]" "[0, 1, 2]" True "- 1"] a b
    by simp
qed

lemma is_nan_iff: "is_nan v \<longleftrightarrow> \<not> is_finite v"
  by (cases v) (simp_all add: is_nan_def is_finite_def)

lemma any_nan_iff: "any_nan vs \<longleftrightarrow> \<not> list_all is_finite vs"
  by (induction vs) (simp_all add: any_nan_def is_nan_iff)

lemma compute_loss_events:
  "compute_loss self score sem_lbl inst_lbl vmo = (ev, Inr r) \<Longrightarrow> ev = [LossFcnCalled]"
  by (auto simp: compute_loss_def Let_def split: if_splits sum.splits prod.splits)

lemma debug_check_raises:
  assumes "\<not> is_finite loss \<or> \<not> list_all is_finite (data score)"
  shows "\<exists>w msg. debug_check_values_are_valid loss score iteration = (w, Inl (ValueError msg)) \<and>
           set w \<subseteq> {Warning}"
  using assms by (auto simp: debug_check_values_are_valid_def is_nan_iff any_nan_iff Let_def)

lemma debug_check_warns:
  assumes "is_finite loss" "fval_gt loss 10000" "list_all is_finite (data score)"
  shows "debug_check_values_are_valid loss score iteration = ([Warning], Inr ())"
  using assms by (simp add: debug_check_values_are_valid_def is_nan_iff any_nan_iff)

text \<open>
  Claim C6 (numerical validity), for a training iteration whose loss has been computed.
  If the loss or an entry of the score tensor is not finite, the iteration ends in a
  ValueError and neither \<open>loss.backward()\<close> nor the optimiser step has happened (the
  gradients were zeroed before the forward pass). If the loss is finite and above
  \<open>1e4\<close>, the scores being finite, the warning is printed and the iteration goes on
  to the backward pass and the optimiser step.
\<close>

theorem numerical_validity_contract:
  assumes "model_training self"
    and "compute_loss self (model self full_input) sem_lbl inst_lbl False
           = (ev, Inr (perms, loss, comps, inst_lbl'))"
  shows "(\<not> is_finite loss \<or> \<not> list_all is_finite (data (model self full_input)) \<longrightarrow>
            (\<exists>msg. snd (train_iteration self full_input sem_lbl inst_lbl iteration)
                     = Inl (ValueError msg)) \<and>
            Backward \<notin> set (fst (train_iteration self full_input sem_lbl inst_lbl iteration)) \<and>
            OptimStep \<notin> set (fst (train_iteration self full_input sem_lbl inst_lbl iteration))) \<and>
         (is_finite loss \<and> fval_gt loss 10000 \<and>
          list_all is_finite (data (model self full_input)) \<longrightarrow>
            train_iteration self full_input sem_lbl inst_lbl iteration
              = ([ZeroGrad, Forward, LossFcnCalled, Warning, Backward, OptimStep],
                 Inr (perms, loss, comps)))"
proof (intro conjI impI)
  note ev = compute_loss_events[OF assms(2)]
  {
    assume "\<not> is_finite loss \<or> \<not> list_all is_finite (data (model self full_input))"
    from debug_check_raises[OF this, of iteration] obtain w msg where
      w: "debug_check_values_are_valid loss (model self full_input) iteration
            = (w, Inl (ValueError msg))" "set w \<subseteq> {Warning}"
      by blast
    then have t: "train_iteration self full_input sem_lbl inst_lbl iteration
                 = ([ZeroGrad, Forward, LossFcnCalled] @ w, Inl (ValueError msg))"
      using assms ev by (simp add: train_iteration_def Let_def)
    show "\<exists>msg. snd (train_iteration self full_input sem_lbl inst_lbl iteration)
                     = Inl (ValueError msg)"
      using t by simp
    show "Backward \<notin> set (fst (train_iteration self full_input sem_lbl inst_lbl iteration))"
      using t w(2) by auto
    show "OptimStep \<notin> set (fst (train_iteration self full_input sem_lbl inst_lbl iteration))"
      using t w(2) by auto
  }
  {
    assume "is_finite loss \<and> fval_gt loss 10000 \<and>
          list_all is_finite (data (model self full_input))"
    then have "debug_check_values_are_valid loss (model self full_input) iteration
                 = ([Warning], Inr ())"
      using debug_check_warns by blast
    then show "train_iteration self full_input sem_lbl inst_lbl iteration
              = ([ZeroGrad, Forward, LossFcnCalled, Warning, Backward, OptimStep],
                 Inr (perms, loss, comps))"
      using assms ev by (simp add: train_iteration_def Let_def)
  }
qed

lemma example_compute_loss:
  "compute_loss (example_trainer tot scores) (model (example_trainer tot scores) ())
     example_sem_lbl2 example_inst_lbl2 False
   = ([LossFcnCalled], Inr ((), fval_div tot 1, (), example_inst_lbl2))"
  by (simp add: compute_loss_def example_trainer_def example_sem_lbl2_def example_inst_lbl2_def
        size_of_def example_config_def)

theorem numerical_validity_contract_witness:
  "train_iteration (example_trainer NaN (replicate 6 (Finite 0))) ()
       example_sem_lbl2 example_inst_lbl2 7
     = ([ZeroGrad, Forward, LossFcnCalled], Inl (ValueError ''losses is nan while training'')) \<and>
   train_iteration (example_trainer (Finite 1) (replicate 5 (Finite 0) @ [PosInf])) ()
       example_sem_lbl2 example_inst_lbl2 7
     = ([ZeroGrad, Forward, LossFcnCalled], Inl (ValueError ''score is nan while training'')) \<and>
   train_iteration (example_trainer (Finite 20000) (replicate 6 (Finite 0))) ()
       example_sem_lbl2 example_inst_lbl2 7
     = ([ZeroGrad, Forward, LossFcnCalled, Warning, Backward, OptimStep],
        Inr ((), Finite 20000, ()))"
proof -
  have t: "model_training (example_trainer tot scores)" for tot scores
    by (simp add: example_trainer_def)
  have m: "data (model (example_trainer tot scores) ()) = scores" for tot scores
    by (simp add: example_trainer_def)
  have 1: "train_iteration (example_trainer NaN (replicate 6 (Finite 0))) ()
       example_sem_lbl2 example_inst_lbl2 7
     = ([ZeroGrad, Forward, LossFcnCalled], Inl (ValueError ''losses is nan while training''))"
    by (simp add: train_iteration_def example_compute_loss t m debug_check_values_are_valid_def
          is_nan_def fval_div_def)
  have 2: "train_iteration (example_trainer (Finite 1) (replicate 5 (Finite 0) @ [PosInf])) ()
       example_sem_lbl2 example_inst_lbl2 7
     = ([ZeroGrad, Forward, LossFcnCalled], Inl (ValueError ''score is nan while training''))"
    by (simp add: train_iteration_def example_compute_loss t m debug_check_values_are_valid_def
          is_nan_def any_nan_def fval_gt_def fval_div_def numeral_eq_Suc)
  have f: "is_finite (fval_div (Finite 20000) 1)" "fval_gt (fval_div (Finite 20000) 1) 10000"
    "list_all is_finite (replicate 6 (Finite 0))" "fval_div (Finite 20000) 1 = Finite 20000"
    by (simp_all add: is_finite_def fval_gt_def fval_div_def numeral_eq_Suc)
  have 3: "train_iteration (example_trainer (Finite 20000) (replicate 6 (Finite 0))) ()
       example_sem_lbl2 example_inst_lbl2 7
     = ([ZeroGrad, Forward, LossFcnCalled, Warning, Backward, OptimStep],
        Inr ((), Finite 20000, ()))"
    using numerical_validity_contract[OF t example_compute_loss,
        of "Finite 20000" "replicate 6 (Finite 0)" 7] f
    by (simp only: m simp_thms)
  have 4: "\<not> is_finite (fval_div NaN 1)"
    by (simp add: is_finite_def fval_div_def)
  from numerical_validity_contract[OF t example_compute_loss,
        of NaN "replicate 6 (Finite 0)" 7] 4
  have "Backward \<notin> set (fst (train_iteration (example_trainer NaN (replicate 6 (Finite 0))) ()
       example_sem_lbl2 example_inst_lbl2 7))"
    by blast
  with 1 2 3 show ?thesis by simp
qed

section \<open>Applying a permutation: proofs\<close>

lemma fold_update_nth:
  "i < length cur \<Longrightarrow>
   fold (\<lambda>ch acc. acc[ch := f ch]) chs cur ! i = (if i \<in> set chs then f i else cur ! i)"
  by (induction chs arbitrary: cur) (auto simp: nth_list_update)

lemma fold_update_length: "length (fold (\<lambda>ch acc. acc[ch := f ch]) chs cur) = length cur"
  by (induction chs arbitrary: cur) auto

lemma bijection_row_facts:
  assumes "is_bijection_row n r"
  shows "length r = n" "distinct r" "set r = int ` {0..<n}"
proof -
  from assms have s: "sort r = map int [0..<n]" by (simp add: is_bijection_row_def)
  have "length (sort r) = n" unfolding s by simp
  then show "length r = n" by simp
  have "distinct (sort r)" unfolding s by (simp add: distinct_map)
  then show "distinct r" by simp
  have "set (sort r) = int ` {0..<n}" unfolding s by simp
  then show "set r = int ` {0..<n}" by simp
qed

lemma bijection_row_entry:
  assumes "is_bijection_row n r" "ch < n"
  shows "0 \<le> r ! ch" "nat (r ! ch) < n" "python_index n (r ! ch) = Some (nat (r ! ch))"
proof -
  note f = bijection_row_facts[OF assms(1)]
  have "r ! ch \<in> set r" using f(1) assms(2) by simp
  then obtain k where k: "r ! ch = int k" "k < n" using f(3) by auto
  then show "0 \<le> r ! ch" "nat (r ! ch) < n" by simp_all
  then show "python_index n (r ! ch) = Some (nat (r ! ch))"
    by (simp add: python_index_def)
qed

lemma permute_channels_single:
  assumes "rows score = [img]" "size1 score = length img" "rows p = [r]" "size1 p = length img"
    and "is_bijection_row (length img) r"
    and "\<forall>ch\<in>set chs. ch < length img"
  shows "permute_channels score p chs (score\<lparr>rows := [cur]\<rparr>) =
         Inr (score\<lparr>rows := [fold (\<lambda>ch acc. acc[ch := img ! nat (r ! ch)]) chs cur]\<rparr>)"
  using assms(6)
proof (induction chs arbitrary: cur)
  case Nil
  then show ?case by simp
next
  case (Cons ch chs)
  then have ch: "ch < length img" by simp
  note e = bijection_row_entry[OF assms(5) ch]
  have c: "column p ch = Inr [r ! ch]"
    using assms(3,4) ch by (simp add: column_def)
  have s: "select_channels score [r ! ch] = Inr [[img ! nat (r ! ch)]]"
    using assms(1,2) e(3) by (simp add: select_channels_def)
  have a: "assign_channel (score\<lparr>rows := [cur]\<rparr>) ch [[img ! nat (r ! ch)]] =
           Inr (score\<lparr>rows := [cur[ch := img ! nat (r ! ch)]]\<rparr>)"
    by (simp add: assign_channel_def)
  show ?case
    using Cons.IH[of "cur[ch := img ! nat (r ! ch)]"] Cons.prems c s a by simp
qed

lemma permute_scores_single:
  assumes "rows score = [img]" "size1 score = length img" "rows p = [r]" "size1 p = length img"
    and "is_bijection_row (length img) r"
  shows "permute_scores score p =
         Inr (score\<lparr>rows := [map (\<lambda>ch. img ! nat (r ! ch)) [0..<length img]]\<rparr>)"
proof -
  have "fold (\<lambda>ch acc. acc[ch := img ! nat (r ! ch)]) [0..<length img] img =
        map (\<lambda>ch. img ! nat (r ! ch)) [0..<length img]"
    by (intro nth_equalityI) (simp_all add: fold_update_length fold_update_nth)
  moreover have "score\<lparr>rows := [img]\<rparr> = score" using assms(1) by simp
  ultimately show ?thesis
    using permute_channels_single[OF assms, of "[0..<length img]" img] assms(2)
    by (simp add: permute_scores_def)
qed



lemma relabel_step_nth:
  assumes "length out = length lp" "x < length lp"
  shows "masked_assign (map (\<lambda>v. v = b) lp) (int a) out ! x =
         (if lp ! x = b then int a else out ! x)"
  using assms by (simp add: nth_masked_assign)

lemma relabel_step_length:
  "length out = length lp \<Longrightarrow>
   length (masked_assign (map (\<lambda>v. v = b) lp) (int a) out) = length lp"
  by (simp add: length_masked_assign)

lemma length_relabel_channels:
  "length out = length lp \<Longrightarrow> length (relabel_channels lp pairs out) = length lp"
proof (induction pairs arbitrary: out)
  case Nil
  then show ?case by simp
next
  case (Cons q qs)
  obtain a b where q: "q = (a, b)" by (cases q)
  show ?case
    using Cons.IH[OF relabel_step_length[OF Cons.prems, of b a]] by (simp add: q)
qed

lemma relabel_channels_miss:
  assumes "length out = length lp" "x < length lp" "lp ! x \<notin> snd ` set pairs"
  shows "relabel_channels lp pairs out ! x = out ! x"
  using assms
proof (induction pairs arbitrary: out)
  case Nil
  then show ?case by simp
next
  case (Cons q qs)
  obtain a b where q: "q = (a, b)" by (cases q)
  from Cons.prems(3) q have ne: "lp ! x \<noteq> b" and rest: "lp ! x \<notin> snd ` set qs"
    by simp_all
  let ?out1 = "masked_assign (map (\<lambda>v. v = b) lp) (int a) out"
  have "relabel_channels lp qs ?out1 ! x = ?out1 ! x"
    by (rule Cons.IH[OF relabel_step_length[OF Cons.prems(1)] Cons.prems(2) rest])
  also have "?out1 ! x = out ! x"
    using relabel_step_nth[OF Cons.prems(1,2), of b a] ne by simp
  finally show ?case by (simp add: q)
qed

lemma relabel_channels_hit:
  assumes "length out = length lp" "x < length lp" "distinct (map snd pairs)"
    and "(n, lp ! x) \<in> set pairs"
  shows "relabel_channels lp pairs out ! x = int n"
  using assms
proof (induction pairs arbitrary: out)
  case Nil
  then show ?case by simp
next
  case (Cons q qs)
  obtain a b where q: "q = (a, b)" by (cases q)
  let ?out1 = "masked_assign (map (\<lambda>v. v = b) lp) (int a) out"
  have len1: "length ?out1 = length lp" by (rule relabel_step_length[OF Cons.prems(1)])
  from Cons.prems(3) q have b: "b \<notin> snd ` set qs" and d: "distinct (map snd qs)"
    by simp_all
  show ?case
  proof (cases "lp ! x = b")
    case True
    with b have notin: "lp ! x \<notin> snd ` set qs" by simp
    have "(n, lp ! x) \<notin> set qs"
    proof
      assume "(n, lp ! x) \<in> set qs"
      then have "snd (n, lp ! x) \<in> snd ` set qs" by (rule imageI)
      with notin show False by simp
    qed
    with Cons.prems(4) q have "n = a" by simp
    moreover have "?out1 ! x = int a"
      using relabel_step_nth[OF Cons.prems(1,2), of b a] True by simp
    ultimately show ?thesis
      using relabel_channels_miss[OF len1 Cons.prems(2) notin] by (simp add: q)
  next
    case False
    with Cons.prems(4) q have "(n, lp ! x) \<in> set qs" by simp
    from Cons.IH[OF len1 Cons.prems(2) d this] show ?thesis by (simp add: q)
  qed
qed


lemma map_snd_enumerate: "map snd (enumerate k r) = r"
  by (simp add: enumerate_eq_zip)

lemma snd_set_enumerate: "snd ` set (enumerate k r) = set r"
  using map_snd_enumerate[of k r] by (metis set_map)

lemma in_set_enumerate0: "n < length r \<Longrightarrow> (n, r ! n) \<in> set (enumerate 0 r)"
  by (simp add: in_set_enumerate_eq)

lemma permute_labels_single:
  assumes "rows p = [r]"
  shows "data (permute_labels label_preds p) =
         relabel_channels (data label_preds) (enumerate 0 r) (data label_preds)"
  using assms by (simp add: permute_labels_def)

lemma relabel_rows_outside:
  assumes "length out = length lp" "y < length lp"
    and "\<forall>r\<in>set rs. lp ! y \<notin> set r"
  shows "fold (\<lambda>permutation out. relabel_channels lp (enumerate 0 permutation) out) rs out ! y
         = out ! y"
  using assms
proof (induction rs arbitrary: out)
  case Nil
  then show ?case by simp
next
  case (Cons r rs)
  let ?out1 = "relabel_channels lp (enumerate 0 r) out"
  have len1: "length ?out1 = length lp"
    by (rule length_relabel_channels[OF Cons.prems(1)])
  have "lp ! y \<notin> snd ` set (enumerate 0 r)"
    using Cons.prems(3) by (simp add: snd_set_enumerate)
  then have "?out1 ! y = out ! y"
    by (rule relabel_channels_miss[OF Cons.prems(1,2)])
  moreover have "\<forall>r\<in>set rs. lp ! y \<notin> set r" using Cons.prems(3) by simp
  ultimately show ?case using Cons.IH[OF len1 Cons.prems(2)] by simp
qed

lemma permute_labels_outside:
  assumes "list_all (is_bijection_row n) (rows q)" "y < length (data label_preds)"
    and "data label_preds ! y < 0 \<or> int n \<le> data label_preds ! y"
  shows "data (permute_labels label_preds q) ! y = data label_preds ! y"
proof -
  have "\<forall>r\<in>set (rows q). data label_preds ! y \<notin> set r"
  proof
    fix r assume "r \<in> set (rows q)"
    with assms(1) have "is_bijection_row n r" by (simp add: list_all_iff)
    then have "set r = int ` {0..<n}" by (rule bijection_row_facts(3))
    with assms(3) show "data label_preds ! y \<notin> set r" by auto
  qed
  from relabel_rows_outside[OF refl assms(2) this] show ?thesis
    by (simp add: permute_labels_def)
qed

lemma unique_argmax_iff:
  "unique_argmax img x a \<longleftrightarrow>
   a < length img \<and> (\<forall>c<length img. c \<noteq> a \<longrightarrow> img ! c ! x < img ! a ! x)"
  by (auto simp: unique_argmax_def list_all_iff)

text \<open>
  Claim C10 (permuting the scores and permuting the argmax labels commute, for every
  permutation array whose rows are bijections) fails on the code for a batch of two
  images. With the rows \<open>[1, 0]\<close> and \<open>[0, 1]\<close>, both bijections, and a unique largest score
  at the one pixel of each image, \<open>permute_scores\<close> raises: the selection
  \<open>score[:, pred_permutations[:, ch], :, :]\<close> has shape (2, 2, H, W) and does not fit the
  slice of shape (2, H, W) it is assigned to. \<open>permute_labels\<close> for its part applies each
  row to the labels of both images, so that the last row, here the identity, decides:
  the label 0 of the first image stays 0, where its own row \<open>[1, 0]\<close> sends it to 1.
\<close>

theorem permute_batch_of_two_diverges:
  "is_bijection_row 2 [1, 0] \<and> is_bijection_row 2 [0, 1] \<and>
   unique_argmax [[1], [0 :: int]] 0 0 \<and> unique_argmax [[0], [1 :: int]] 0 1 \<and>
   permute_scores \<lparr>size1 = 2, rows = [[[1], [0 :: int]], [[0], [1]]]\<rparr>
       \<lparr>size1 = 2, rows = [[1, 0], [0, 1]]\<rparr> = Inl RuntimeError \<and>
   data (permute_labels \<lparr>shape = [2, 1, 1], data = [0, 1]\<rparr>
           \<lparr>size1 = 2, rows = [[1, 0], [0, 1]]\<rparr>) = [0, 1]"
  by (simp add: is_bijection_row_def unique_argmax_def permute_scores_def column_def
        select_channels_def python_index_def assign_channel_def permute_labels_def
        masked_assign_def upt_rec)


text \<open>
  For a batch of one image the two functions agree. Let the permutation array have the
  single row \<open>r\<close>, a bijection of the channels, and let the label map hold at pixel \<open>x\<close>
  the channel \<open>a\<close> that alone has the largest score there. Then \<open>permute_scores\<close>
  returns, and the label that \<open>permute_labels\<close> puts at \<open>x\<close> is the channel that alone has
  the largest permuted score there. A label outside \<open>[0, n_channels)\<close>, such as the void
  value, is left as it is.
\<close>

lemma single_image_permutation_commutes:
  assumes "rows score = [img]" "size1 score = length img"
    and "rows p = [r]" "size1 p = length img" "is_bijection_row (length img) r"
    and "x < length (data label_preds)" "unique_argmax img x a"
    and "data label_preds ! x = int a"
  shows "(\<exists>s img' a'. permute_scores score p = Inr s \<and> rows s = [img'] \<and>
            length img' = length img \<and>
            data (permute_labels label_preds p) ! x = int a' \<and> unique_argmax img' x a') \<and>
         (\<forall>y<length (data label_preds).
            data label_preds ! y < 0 \<or> int (length img) \<le> data label_preds ! y \<longrightarrow>
            data (permute_labels label_preds p) ! y = data label_preds ! y)"
proof
  let ?n = "length img"
  let ?img' = "map (\<lambda>ch. img ! nat (r ! ch)) [0..<?n]"
  note f = bijection_row_facts[OF assms(5)]
  from assms(7) have a: "a < ?n" and best: "\<forall>c<?n. c \<noteq> a \<longrightarrow> img ! c ! x < img ! a ! x"
    by (simp_all add: unique_argmax_iff)
  from a f(3) have "int a \<in> set r" by simp
  then obtain a' where a': "a' < length r" "r ! a' = int a"
    by (auto simp: in_set_conv_nth)
  have s: "permute_scores score p = Inr (score\<lparr>rows := [?img']\<rparr>)"
    by (rule permute_scores_single[OF assms(1-5)])
  have lbl: "data (permute_labels label_preds p) ! x = int a'"
  proof -
    have "(a', data label_preds ! x) \<in> set (enumerate 0 r)"
      using in_set_enumerate0[OF a'(1)] a'(2) assms(8) by simp
    from relabel_channels_hit[OF refl assms(6) _ this] f(2) show ?thesis
      by (simp add: permute_labels_single[OF assms(3)] map_snd_enumerate)
  qed
  have "img' ! c ! x < img' ! a' ! x" if c: "c < ?n" "c \<noteq> a'" and img': "img' = ?img'" for c img'
  proof -
    note e = bijection_row_entry[OF assms(5) c(1)]
    have "r ! c \<noteq> r ! a'"
      using f(1,2) c a'(1) by (simp add: nth_eq_iff_index_eq)
    with a'(2) e(1) have "nat (r ! c) \<noteq> a" by auto
    with best e(2) have "img ! nat (r ! c) ! x < img ! a ! x" by simp
    then show ?thesis using img' c(1) a' f(1) by simp
  qed
  then have "unique_argmax ?img' x a'"
    using a'(1) f(1) by (simp add: unique_argmax_iff)
  with s lbl show "\<exists>s img' a'. permute_scores score p = Inr s \<and> rows s = [img'] \<and>
            length img' = length img \<and>
            data (permute_labels label_preds p) ! x = int a' \<and> unique_argmax img' x a'"
    by (intro exI[of _ "score\<lparr>rows := [?img']\<rparr>"] exI[of _ ?img'] exI[of _ a']) simp
next
  have "list_all (is_bijection_row (length img)) (rows p)"
    using assms(3,5) by simp
  then show "\<forall>y<length (data label_preds).
            data label_preds ! y < 0 \<or> int (length img) \<le> data label_preds ! y \<longrightarrow>
            data (permute_labels label_preds p) ! y = data label_preds ! y"
    using permute_labels_outside by blast
qed

lemma single_image_permutation_example:
  "is_bijection_row 3 [2, 0, 1] \<and>
   unique_argmax [[1, 5, 0], [7, 2, 0], [3, 9, 0 :: int]] 0 1 \<and>
   (\<exists>s img' a'. permute_scores \<lparr>size1 = 3, rows = [[[1, 5, 0], [7, 2, 0], [3, 9, 0 :: int]]]\<rparr>
                    \<lparr>size1 = 3, rows = [[2, 0, 1]]\<rparr> = Inr s \<and>
        rows s = [img'] \<and> length img' = length [[1, 5, 0], [7, 2, 0], [3, 9, 0 :: int]] \<and>
        data (permute_labels \<lparr>shape = [1, 1, 3], data = [1, 2, - 1]\<rparr>
                \<lparr>size1 = 3, rows = [[2, 0, 1]]\<rparr>) ! 0 = int a' \<and>
        unique_argmax img' 0 a') \<and>
   data (permute_labels \<lparr>shape = [1, 1, 3], data = [1, 2, - 1]\<rparr>
           \<lparr>size1 = 3, rows = [[2, 0, 1]]\<rparr>) ! 2 = - 1"
proof -
  let ?img = "[[1, 5, 0], [7, 2, 0], [3, 9, 0 :: int]]"
  let ?score = "\<lparr>size1 = 3, rows = [?img]\<rparr>"
  let ?p = "\<lparr>size1 = 3, rows = [[2, 0, 1 :: int]]\<rparr>"
  let ?lp = "\<lparr>shape = [1, 1, 3 :: nat], data = [1, 2, - 1 :: int]\<rparr>"
  have h1: "rows ?score = [?img]" by simp
  have h2: "size1 ?score = length ?img" by simp
  have h3: "rows ?p = [[2, 0, 1]]" by simp
  have h4: "size1 ?p = length ?img" by simp
  have b: "is_bijection_row 3 [2, 0, 1]"
    by (simp add: is_bijection_row_def upt_rec)
  have h5: "is_bijection_row (length ?img) [2, 0, 1]"
    by (simp add: is_bijection_row_def upt_rec)
  have h6: "0 < length (data ?lp)" by simp
  have h7: "unique_argmax ?img 0 1"
    by (simp add: unique_argmax_def upt_rec)
  have h8: "data ?lp ! 0 = int 1" by simp
  note t = single_image_permutation_commutes[OF h1 h2 h3 h4 h5 h6 h7 h8]
  from t have c1: "\<exists>s img' a'. permute_scores ?score ?p = Inr s \<and> rows s = [img'] \<and>
        length img' = length ?img \<and> data (permute_labels ?lp ?p) ! 0 = int a' \<and>
        unique_argmax img' 0 a'"
    by (rule conjunct1)
  from t have all: "\<forall>y<length (data ?lp). data ?lp ! y < 0 \<or>
        int (length ?img) \<le> data ?lp ! y \<longrightarrow>
        data (permute_labels ?lp ?p) ! y = data ?lp ! y"
    by (rule conjunct2)
  have "2 < length (data ?lp)" "data ?lp ! 2 < 0" by simp_all
  with all have "data (permute_labels ?lp ?p) ! 2 = data ?lp ! 2" by blast
  then have c2: "data (permute_labels ?lp ?p) ! 2 = - 1" by simp
  from b h7 c1 c2 show ?thesis by blast
qed

end
